theory Spec2Isabelle
  imports Complex_Main "HOL-Library.Sublist"
begin

section \<open>Hybrid DV/HDR tool: the client-side state layer\<close>

text \<open>
  The component \<^verbatim>\<open>HybridDVHDRTool\<close> exists in three revisions in the sources. The
  revision with HDR10+ support, presets and windowed ETA smoothing is the one modelled in
  full; of the two HDR-only revisions the parts that differ (mode derivation, the HDR and DV
  inputs, the queue handlers, the start handler, the lazy state initialisers) are modelled
  beside it, with the suffix \<open>2\<close> or \<open>3\<close>. A number held in the state or carried by a
  payload is finite and is modelled by the rational it denotes; the arithmetic of the ETA
  computation is IEEE-754 double arithmetic, with its rounding, its infinities and its NaN.
  \<^verbatim>\<open>Date.now()\<close> is an integer number of milliseconds that the caller passes in, and
  JavaScript strings are character lists.
\<close>

subsection \<open>Enumerations of \<^verbatim>\<open>types.ts\<close>\<close>

datatype ProcessingMode = Single | Batch

datatype ProcessingStatus = Idle | Processing | Completed | Error

datatype FileStatus = FPending | FProcessing | FCompleted | FError

datatype StepStatus = SPending | SActive | SCompleted | SError

datatype LogType = Info | Success | Warning | LError

datatype PathKind = File | Folder | Unknown

subsection \<open>String primitives of the host language\<close>

text \<open>\<^verbatim>\<open>s.endsWith(t)\<close>.\<close>

definition endsWith :: "string \<Rightarrow> string \<Rightarrow> bool" where
  "endsWith s t = (length t \<le> length s \<and> drop (length s - length t) s = t)"

text \<open>The backslash, written by its code so that the theory text stays free of escapes.\<close>

definition backslash :: char where
  "backslash = char_of (92 :: nat)"

definition slash :: char where
  "slash = CHR ''/''"

subsection \<open>Path classification\<close>

text \<open>
  \<^verbatim>\<open>inferPathKind\<close>: the empty string is \<^verbatim>\<open>'unknown'\<close>, a string ending in a
  separator is a folder, anything else a file.
\<close>

definition inferPathKind :: "string \<Rightarrow> PathKind" where
  "inferPathKind v =
     (if v = [] then Unknown
      else if endsWith v [backslash] \<or> endsWith v [slash] then Folder
      else File)"

text \<open>
  The classification written inline in the \<^verbatim>\<open>onChange\<close> handlers of the four path
  inputs: \<^verbatim>\<open>v.endsWith('\\') || v.endsWith('/') ? 'folder' : 'file'\<close>.
\<close>

definition inlinePathKind :: "string \<Rightarrow> PathKind" where
  "inlinePathKind v = (if endsWith v [backslash] \<or> endsWith v [slash] then Folder else File)"

text \<open>A string ends in a path separator.\<close>

definition endsInSeparator :: "string \<Rightarrow> bool" where
  "endsInSeparator v = (v \<noteq> [] \<and> (last v = backslash \<or> last v = slash))"

subsection \<open>Further string primitives\<close>

text \<open>\<^verbatim>\<open>s.includes(t)\<close>: \<open>t\<close> occurs in \<open>s\<close> as a contiguous run.\<close>

definition includes_str :: "string \<Rightarrow> string \<Rightarrow> bool" where
  "includes_str s t = sublist t s"

text \<open>\<^verbatim>\<open>s.toLowerCase()\<close>, on the ASCII letters.\<close>

definition lowerChar :: "char \<Rightarrow> char" where
  "lowerChar c =
     (let n = (of_char c :: nat) in if 65 \<le> n \<and> n \<le> 90 then char_of (n + 32) else c)"

definition toLowerCase :: "string \<Rightarrow> string" where
  "toLowerCase s = map lowerChar s"

text \<open>\<^verbatim>\<open>s.split(c)\<close> for a one-character separator: the empty string splits into one empty piece.\<close>

fun split_on :: "char \<Rightarrow> string \<Rightarrow> string list" where
  "split_on c [] = [[]]"
| "split_on c (x # xs) =
     (if x = c then [] # split_on c xs
      else (case split_on c xs of [] \<Rightarrow> [[x]] | w # ws \<Rightarrow> (x # w) # ws))"

text \<open>
  \<^verbatim>\<open>p.split('\\').filter(Boolean).pop() || p\<close>: the last non-empty piece between
  backslashes, or the whole string when there is none.
\<close>

definition pathLabel :: "string \<Rightarrow> string" where
  "pathLabel p =
     (let parts = filter (\<lambda>w. w \<noteq> []) (split_on backslash p)
      in if parts = [] then p else last parts)"

text \<open>\<^verbatim>\<open>s.replace(pat, rep)\<close> with a string pattern: the first occurrence only.\<close>

fun replace_first :: "string \<Rightarrow> string \<Rightarrow> string \<Rightarrow> string" where
  "replace_first pat rep [] = (if pat = [] then rep else [])"
| "replace_first pat rep (c # cs) =
     (if prefix pat (c # cs) then rep @ drop (length pat) (c # cs)
      else c # replace_first pat rep cs)"

text \<open>\<^verbatim>\<open>a || b\<close> on strings: the empty string is falsy.\<close>

definition or_str :: "string \<Rightarrow> string \<Rightarrow> string" where
  "or_str a b = (if a = [] then b else a)"

text \<open>\<^verbatim>\<open>a ?? b\<close> on an optional value.\<close>

definition nullish :: "'a option \<Rightarrow> 'a option \<Rightarrow> 'a option" where
  "nullish a b = (case a of None \<Rightarrow> b | Some v \<Rightarrow> Some v)"

subsection \<open>Double-precision arithmetic\<close>

text \<open>
  The values the ETA computation produces are IEEE-754 binary64 numbers. A finite one is
  represented by the rational it denotes; the two zeros are identified, which no operation
  below tells apart. Every arithmetic operation computes the exact result and rounds it to
  the nearest representable number, ties to the even significand.
\<close>

datatype double = Num rat | Infinity | NegInfinity | NaN

definition pow2 :: "int \<Rightarrow> rat" where
  "pow2 k = (if 0 \<le> k then 2 ^ nat k else 1 / 2 ^ nat (- k))"

text \<open>The number of binary digits of a positive integer.\<close>

function bitLength :: "int \<Rightarrow> int" where
  "bitLength n = (if n \<le> 0 then 0 else 1 + bitLength (n div 2))"
  by pat_completeness auto
termination
  by (relation "measure nat") auto

declare bitLength.simps [simp del]

text \<open>The binary exponent of a positive rational \<open>x\<close>: the \<open>k\<close> with \<open>2^k \<le> x < 2^(k+1)\<close>.\<close>

definition ilog2 :: "rat \<Rightarrow> int" where
  "ilog2 x =
     (let (n, d) = quotient_of x;
          k = bitLength n - bitLength d
      in if pow2 k \<le> x then k else k - 1)"

definition roundHalfEven :: "rat \<Rightarrow> int" where
  "roundHalfEven y =
     (let f = \<lfloor>y\<rfloor>; r = y - of_int f
      in if r < 1 / 2 then f else if 1 / 2 < r then f + 1 else if even f then f else f + 1)"

text \<open>
  Rounding of an exact result: 53 significant bits, the exponent not below that of the
  subnormal numbers, and an infinity when the rounded magnitude reaches \<open>2^1024\<close>, that is,
  when its binary exponent is 1024 or more.
\<close>

definition toDouble :: "rat \<Rightarrow> double" where
  "toDouble x =
     (if x = 0 then Num 0
      else
        let a = \<bar>x\<bar>;
            e = max (ilog2 a) (- 1022);
            q = pow2 (e - 52);
            r = of_int (roundHalfEven (a / q)) * q
        in if 1024 \<le> ilog2 r then (if 0 < x then Infinity else NegInfinity)
           else Num (if 0 < x then r else - r))"

fun dneg :: "double \<Rightarrow> double" where
  "dneg (Num x) = Num (- x)"
| "dneg Infinity = NegInfinity"
| "dneg NegInfinity = Infinity"
| "dneg NaN = NaN"

text \<open>\<^verbatim>\<open>a + b\<close>.\<close>

fun dadd :: "double \<Rightarrow> double \<Rightarrow> double" where
  "dadd (Num x) (Num y) = toDouble (x + y)"
| "dadd NaN b = NaN"
| "dadd a NaN = NaN"
| "dadd Infinity NegInfinity = NaN"
| "dadd NegInfinity Infinity = NaN"
| "dadd Infinity b = Infinity"
| "dadd NegInfinity b = NegInfinity"
| "dadd a Infinity = Infinity"
| "dadd a NegInfinity = NegInfinity"

text \<open>\<^verbatim>\<open>a - b\<close>.\<close>

definition dsub :: "double \<Rightarrow> double \<Rightarrow> double" where
  "dsub a b = dadd a (dneg b)"

text \<open>\<^verbatim>\<open>a / b\<close>; a zero divisor is taken as the positive zero.\<close>

fun ddiv :: "double \<Rightarrow> double \<Rightarrow> double" where
  "ddiv (Num x) (Num y) =
     (if y = 0 then (if 0 < x then Infinity else if x < 0 then NegInfinity else NaN)
      else toDouble (x / y))"
| "ddiv NaN b = NaN"
| "ddiv a NaN = NaN"
| "ddiv (Num x) b = Num 0"
| "ddiv Infinity (Num y) = (if 0 \<le> y then Infinity else NegInfinity)"
| "ddiv NegInfinity (Num y) = (if 0 \<le> y then NegInfinity else Infinity)"
| "ddiv a b = NaN"

text \<open>\<^verbatim>\<open>a > 0\<close>.\<close>

fun positive :: "double \<Rightarrow> bool" where
  "positive (Num x) = (0 < x)"
| "positive Infinity = True"
| "positive d = False"

text \<open>\<^verbatim>\<open>Math.max(0, a)\<close>.\<close>

fun max0 :: "double \<Rightarrow> double" where
  "max0 (Num x) = Num (max 0 x)"
| "max0 Infinity = Infinity"
| "max0 NegInfinity = Num 0"
| "max0 NaN = NaN"

text \<open>
  \<^verbatim>\<open>Math.round\<close>: the nearest integer, halves upwards; an infinity or a NaN is returned
  as it is.
\<close>

fun math_round :: "double \<Rightarrow> double" where
  "math_round (Num x) = Num (of_int \<lfloor>x + 1 / 2\<rfloor>)"
| "math_round d = d"

subsection \<open>Records of \<^verbatim>\<open>types.ts\<close>\<close>

type_synonym number = rat

record ProcessingStep =
  st_id :: number
  st_name :: string
  st_description :: string
  st_status :: StepStatus
  st_progress :: number

record ToolPaths =
  doviTool :: string
  mkvmerge :: string
  mkvextract :: string
  ffmpeg :: string
  mediainfo :: string
  mp4box :: string
  hdr10plusTool :: string
  defaultOutput :: string

record QueueFile =
  qf_id :: string
  qf_hdrFile :: string
  qf_dvFile :: string
  qf_outputFile :: string
  qf_hdrPath :: string
  qf_dvPath :: string
  qf_outputPath :: string
  qf_status :: FileStatus
  qf_progress :: number
  qf_currentStep :: "string option"
  qf_etaSeconds :: "double option"
  qf_activeWorkers :: "number option"
  qf_fileTotal :: "number option"

record ProcessingConfig =
  hdrPath :: string
  dvPath :: string
  outputPath :: string
  hdr10plusPath :: string
  dvDelayMs :: number
  hdr10plusDelayMs :: number
  mode :: ProcessingMode
  parallelTasks :: number
  keepTempFiles :: bool

record LogEntry =
  log_id :: string
  log_timestamp :: int
  log_type :: LogType
  log_message :: string

record QueuePayload =
  qp_id :: string
  qp_status :: FileStatus
  qp_progress :: number
  qp_currentStep :: "string option"
  qp_activeWorkers :: "number option"
  qp_fileTotal :: "number option"

record FileProgressEntry =
  fp_id :: string
  fp_queueId :: string
  fp_name :: string
  fp_progress :: number
  fp_etaSeconds :: "double option"

record FileProgressPayload =
  fpp_id :: string
  fpp_queueId :: string
  fpp_name :: string
  fpp_progress :: number

record ProcessingRequest =
  rq_mode :: ProcessingMode
  rq_hdrPath :: string
  rq_dvPath :: string
  rq_outputPath :: string
  rq_hdr10plusPath :: string
  rq_dvDelayMs :: number
  rq_hdr10plusDelayMs :: number
  rq_keepTempFiles :: bool
  rq_parallelTasks :: number
  rq_toolPaths :: ToolPaths
  rq_queue :: "QueueFile list"

subsection \<open>State of the component\<close>

record PathKinds =
  pk_hdr :: PathKind
  pk_hdr10plus :: PathKind
  pk_dv :: PathKind
  pk_output :: PathKind

record Preset =
  ps_id :: string
  ps_name :: string
  ps_config :: ProcessingConfig
  ps_toolPaths :: ToolPaths
  ps_dvDelayInput :: string
  ps_hdr10plusDelayInput :: string
  ps_showDelays :: bool

record sample =
  s_time :: int
  s_progress :: number

record meta =
  m_start :: int
  m_lastProgress :: number
  m_samples :: "sample list"

text \<open>
  The \<^verbatim>\<open>useState\<close> cells and the \<^verbatim>\<open>useRef\<close> cells of the component, in one record.
  The two flags that only drive rendering (\<^verbatim>\<open>settingsOpen\<close>, \<^verbatim>\<open>isDropActive\<close>) are
  left out.
\<close>

record ui_state =
  pathKinds :: PathKinds
  config :: ProcessingConfig
  toolPaths :: ToolPaths
  status :: ProcessingStatus
  steps :: "ProcessingStep list"
  logs :: "LogEntry list"
  queue :: "QueueFile list"
  fileProgress :: "FileProgressEntry list"
  showDelays :: bool
  dvDelayInput :: string
  hdr10plusDelayInput :: string
  presets :: "Preset list"
  selectedPresetId :: string
  queueMetaRef :: "string \<rightharpoonup> meta"
  fileMetaRef :: "string \<rightharpoonup> meta"
  statusRef :: ProcessingStatus
  selectedQueueIds :: "string set"

definition mkStep :: "number \<Rightarrow> string \<Rightarrow> string \<Rightarrow> ProcessingStep" where
  "mkStep i n d =
     \<lparr>st_id = i, st_name = n, st_description = d, st_status = SPending, st_progress = 0\<rparr>"

definition defaultSteps :: "ProcessingStep list" where
  "defaultSteps =
     [mkStep 1 ''Extract Audio & Subtitles''
        ''Extracting audio tracks and subtitles from HDR source'',
      mkStep 2 ''Extract DV Video'' ''Extracting H.265 video from Dolby Vision source'',
      mkStep 3 ''Extract RPU Data'' ''Extracting RPU metadata from DV stream'',
      mkStep 4 ''Extract HDR10 Video'' ''Extracting H.265 video from HDR10 source'',
      mkStep 5 ''Inject RPU Data'' ''Injecting RPU data into HDR10 video stream'',
      mkStep 6 ''Mux Final Output''
        ''Combining video, audio, and subtitles into final MKV'']"

definition defaultToolPaths :: ToolPaths where
  "defaultToolPaths =
     \<lparr>doviTool = ''dovi_tool'', mkvmerge = ''mkvmerge'', mkvextract = ''mkvextract'',
      ffmpeg = ''ffmpeg'', mediainfo = ''MediaInfo'', mp4box = ''MP4Box'',
      hdr10plusTool = ''hdr10plus_tool'', defaultOutput = ''DV.HDR''\<rparr>"

definition initialConfig :: ProcessingConfig where
  "initialConfig =
     \<lparr>hdrPath = [], dvPath = [], outputPath = [], hdr10plusPath = [],
      dvDelayMs = 0, hdr10plusDelayMs = 0, mode = Single, parallelTasks = 4,
      keepTempFiles = False\<rparr>"

definition initialState :: ui_state where
  "initialState =
     \<lparr>pathKinds = \<lparr>pk_hdr = Unknown, pk_hdr10plus = Unknown, pk_dv = Unknown,
                   pk_output = Unknown\<rparr>,
      config = initialConfig,
      toolPaths = defaultToolPaths,
      status = Idle,
      steps = defaultSteps,
      logs = [],
      queue = [],
      fileProgress = [],
      showDelays = False,
      dvDelayInput = [],
      hdr10plusDelayInput = [],
      presets = [],
      selectedPresetId = [],
      queueMetaRef = Map.empty,
      fileMetaRef = Map.empty,
      statusRef = Idle,
      selectedQueueIds = {}\<rparr>"

text \<open>
  \<^verbatim>\<open>addLog\<close>: the entry's identifier (\<^verbatim>\<open>crypto.randomUUID()\<close>) and its timestamp
  are supplied by the caller of the model.
\<close>

definition addLog :: "string \<Rightarrow> int \<Rightarrow> LogType \<Rightarrow> string \<Rightarrow> ui_state \<Rightarrow> ui_state" where
  "addLog uuid now ty msg s =
     s\<lparr>logs := logs s @ [\<lparr>log_id = uuid, log_timestamp = now, log_type = ty,
                           log_message = msg\<rparr>]\<rparr>"

subsection \<open>ETA smoothing\<close>

definition etaAveragingWindow :: nat where
  "etaAveragingWindow = 6"

text \<open>\<^verbatim>\<open>xs.slice(-n)\<close>: the last \<open>n\<close> elements.\<close>

definition slice_last :: "nat \<Rightarrow> 'a list \<Rightarrow> 'a list" where
  "slice_last n xs = drop (length xs - n) xs"

text \<open>
  The body of the \<^verbatim>\<open>map\<close> callback: the rate between a sample and its predecessor in
  percent per second, and 0 when the time difference is not positive. Times and progress
  values are finite numbers, so they enter as \<open>Num\<close>.
\<close>

definition pairRate :: "sample \<Rightarrow> sample \<Rightarrow> double" where
  "pairRate prev smp =
     (let dt = ddiv (dsub (Num (of_int (s_time smp))) (Num (of_int (s_time prev)))) (Num 1000);
          dp = dsub (Num (s_progress smp)) (Num (s_progress prev))
      in if positive dt then ddiv dp dt else Num 0)"

text \<open>
  \<^verbatim>\<open>computeSmoothedEta\<close>. The source assigns \<^verbatim>\<open>meta.samples\<close> in place; the model
  returns the updated record beside the result, \<open>None\<close> standing for \<^verbatim>\<open>undefined\<close>.
  The \<^verbatim>\<open>reduce\<close> adds the rates from the left, starting at 0.
\<close>

definition computeSmoothedEta :: "int \<Rightarrow> meta \<Rightarrow> number \<Rightarrow> double option \<times> meta" where
  "computeSmoothedEta now meta progress =
     (if progress \<le> 0 then (None, meta)
      else
        let nextSamples =
              slice_last etaAveragingWindow
                (m_samples meta @ [\<lparr>s_time = now, s_progress = progress\<rparr>]);
            deltas =
              filter (\<lambda>rate. positive rate)
                (map (\<lambda>(index, smp). pairRate (nextSamples ! index) smp)
                   (enumerate 0 (tl nextSamples)))
        in if deltas = [] then (None, meta\<lparr>m_samples := nextSamples\<rparr>)
           else
             let avgRate = ddiv (foldl dadd (Num 0) deltas) (Num (of_nat (length deltas)));
                 remaining = max0 (dsub (Num 100) (Num progress))
             in (Some (math_round (ddiv remaining avgRate)),
                 meta\<lparr>m_samples := nextSamples\<rparr>))"

text \<open>The record a listener creates for an item it has no record of yet.\<close>

definition freshMeta :: "int \<Rightarrow> meta" where
  "freshMeta now = \<lparr>m_start = now, m_lastProgress = 0, m_samples = []\<rparr>"

subsection \<open>Event listeners\<close>

text \<open>
  The callback of \<^verbatim>\<open>prev.map\<close> in the \<^verbatim>\<open>processing:queue\<close> listener, for an item
  whose id is the payload's. It reads and writes \<^verbatim>\<open>queueMetaRef\<close>, which the model
  threads through.
\<close>

definition updateQueueItem ::
  "int \<Rightarrow> QueuePayload \<Rightarrow> QueueFile \<Rightarrow> (string \<rightharpoonup> meta) \<Rightarrow> QueueFile \<times> (string \<rightharpoonup> meta)" where
  "updateQueueItem now payload item ref =
     (let (etaSeconds, ref') =
            (if qp_status payload = FProcessing then
               (let meta0 = (case ref (qf_id item) of Some m \<Rightarrow> m | None \<Rightarrow> freshMeta now);
                    (smoothed, meta1) = computeSmoothedEta now meta0 (qp_progress payload);
                    eta = (case smoothed of Some n \<Rightarrow> Some n | None \<Rightarrow> qf_etaSeconds item)
                in (eta, ref(qf_id item \<mapsto> meta1\<lparr>m_lastProgress := qp_progress payload\<rparr>)))
             else if qp_status payload = FCompleted then
               (Some (Num 0), ref(qf_id item := None))
             else if qp_status payload = FError \<or> qp_status payload = FPending then
               (qf_etaSeconds item, ref(qf_id item := None))
             else (qf_etaSeconds item, ref))
      in (item\<lparr>qf_status := qp_status payload,
               qf_progress := qp_progress payload,
               qf_currentStep :=
                 (case qp_currentStep payload of
                    None \<Rightarrow> None
                  | Some cs \<Rightarrow> if cs = [] then None else Some cs),
               qf_etaSeconds := etaSeconds,
               qf_activeWorkers := nullish (qp_activeWorkers payload) (qf_activeWorkers item),
               qf_fileTotal := nullish (qp_fileTotal payload) (qf_fileTotal item)\<rparr>,
          ref'))"

fun mapQueue ::
  "int \<Rightarrow> QueuePayload \<Rightarrow> QueueFile list \<Rightarrow> (string \<rightharpoonup> meta) \<Rightarrow> QueueFile list \<times> (string \<rightharpoonup> meta)" where
  "mapQueue now payload [] ref = ([], ref)"
| "mapQueue now payload (item # rest) ref =
     (if qf_id item \<noteq> qp_id payload then
        (let (rest', ref') = mapQueue now payload rest ref in (item # rest', ref'))
      else
        (let (item', ref1) = updateQueueItem now payload item ref;
             (rest', ref') = mapQueue now payload rest ref1
         in (item' # rest', ref')))"

text \<open>The \<^verbatim>\<open>processing:queue\<close> listener.\<close>

definition onProcessingQueue :: "int \<Rightarrow> QueuePayload \<Rightarrow> ui_state \<Rightarrow> ui_state" where
  "onProcessingQueue now payload s =
     (let (q', ref') = mapQueue now payload (queue s) (queueMetaRef s)
      in s\<lparr>queue := q', queueMetaRef := ref'\<rparr>)"

text \<open>The \<^verbatim>\<open>processing:file\<close> listener.\<close>

definition onProcessingFile :: "int \<Rightarrow> FileProgressPayload \<Rightarrow> ui_state \<Rightarrow> ui_state" where
  "onProcessingFile now payload s =
     (let prev = fileProgress s;
          existing = find (\<lambda>item. fp_id item = fpp_id payload) prev;
          meta0 = (case fileMetaRef s (fpp_id payload) of
                     Some m \<Rightarrow> m | None \<Rightarrow> freshMeta now);
          (smoothed, meta1) = computeSmoothedEta now meta0 (fpp_progress payload);
          etaSeconds =
            (case smoothed of
               Some n \<Rightarrow> Some n
             | None \<Rightarrow> (case existing of None \<Rightarrow> None | Some e \<Rightarrow> fp_etaSeconds e));
          nextEntry =
            \<lparr>fp_id = fpp_id payload, fp_queueId = fpp_queueId payload,
             fp_name = fpp_name payload, fp_progress = fpp_progress payload,
             fp_etaSeconds = etaSeconds\<rparr>
      in s\<lparr>fileProgress :=
             (case existing of
                Some e \<Rightarrow> map (\<lambda>item. if fp_id item = fpp_id payload then nextEntry else item) prev
              | None \<Rightarrow> prev @ [nextEntry]),
           fileMetaRef :=
             (fileMetaRef s)(fpp_id payload \<mapsto> meta1\<lparr>m_lastProgress := fpp_progress payload\<rparr>)\<rparr>)"

text \<open>
  The \<^verbatim>\<open>processing:status\<close> listener. Its second result is the call of
  \<^verbatim>\<open>notify\<close> it makes, as title and body, or \<open>None\<close> when it makes none.
\<close>

definition onProcessingStatus ::
  "ProcessingStatus \<Rightarrow> ui_state \<Rightarrow> ui_state \<times> (string \<times> string) option" where
  "onProcessingStatus nextStatus s =
     (let s1 = s\<lparr>status := nextStatus\<rparr>
      in if statusRef s1 \<noteq> nextStatus then
           (s1\<lparr>statusRef := nextStatus\<rparr>,
            if nextStatus = Completed then
              Some (''Hybrid DV HDR'', ''Processing queue completed successfully.'')
            else if nextStatus = Error then
              Some (''Hybrid DV HDR'', ''Processing failed. Check the console output.'')
            else None)
         else (s1, None))"

text \<open>A run of the listener over a sequence of events: the calls of \<^verbatim>\<open>notify\<close>, one entry per event.\<close>

fun statusRun ::
  "ui_state \<Rightarrow> ProcessingStatus list \<Rightarrow> (string \<times> string) option list \<times> ui_state" where
  "statusRun s [] = ([], s)"
| "statusRun s (e # es) =
     (let (s1, n) = onProcessingStatus e s; (ns, s2) = statusRun s1 es in (n # ns, s2))"

subsection \<open>Derived values\<close>

text \<open>\<^verbatim>\<open>config.hdrPath || config.hdr10plusPath\<close>.\<close>

definition derivedHdrPath :: "ui_state \<Rightarrow> string" where
  "derivedHdrPath s = or_str (hdrPath (config s)) (hdr10plusPath (config s))"

definition derivedHdrKind :: "ui_state \<Rightarrow> PathKind" where
  "derivedHdrKind s =
     (if hdrPath (config s) \<noteq> [] then pk_hdr (pathKinds s) else pk_hdr10plus (pathKinds s))"

text \<open>The mode derivation of the revision with HDR10+ support: a populated queue forces batch mode.\<close>

definition derivedMode :: "ui_state \<Rightarrow> ProcessingMode" where
  "derivedMode s =
     (if length (queue s) > 0 then Batch
      else if derivedHdrKind s = Folder \<and> pk_dv (pathKinds s) = Folder then Batch
      else Single)"

subsection \<open>Path inputs\<close>

text \<open>The \<^verbatim>\<open>onChange\<close> handlers of the four \<^verbatim>\<open>FileInput\<close> elements.\<close>

definition onChangeHdr :: "string \<Rightarrow> ui_state \<Rightarrow> ui_state" where
  "onChangeHdr v s =
     s\<lparr>config := (config s)\<lparr>hdrPath := v, hdr10plusPath := []\<rparr>,
       pathKinds := (pathKinds s)\<lparr>pk_hdr := inlinePathKind v\<rparr>\<rparr>"

definition onChangeDv :: "string \<Rightarrow> ui_state \<Rightarrow> ui_state" where
  "onChangeDv v s =
     s\<lparr>config := (config s)\<lparr>dvPath := v\<rparr>,
       pathKinds := (pathKinds s)\<lparr>pk_dv := inlinePathKind v\<rparr>\<rparr>"

definition onChangeHdr10plus :: "string \<Rightarrow> ui_state \<Rightarrow> ui_state" where
  "onChangeHdr10plus v s =
     s\<lparr>config := (config s)\<lparr>hdr10plusPath := v, hdrPath := []\<rparr>,
       pathKinds := (pathKinds s)\<lparr>pk_hdr10plus := inlinePathKind v\<rparr>\<rparr>"

definition onChangeOutput :: "string \<Rightarrow> ui_state \<Rightarrow> ui_state" where
  "onChangeOutput v s =
     s\<lparr>config := (config s)\<lparr>outputPath := v\<rparr>,
       pathKinds := (pathKinds s)\<lparr>pk_output := inlinePathKind v\<rparr>\<rparr>"

datatype Target = THdr | TDv | TOutput | THdr10plus

text \<open>
  The pair of state updates that \<^verbatim>\<open>browseFile\<close> and \<^verbatim>\<open>browseFolder\<close> make with a
  path they obtained, in each of their branches: the path goes to the target's field, the
  HDR10+ target clears the HDR path, the HDR target clears the HDR10+ path, and the
  target's kind is set.
\<close>

definition assignBrowsed :: "Target \<Rightarrow> string \<Rightarrow> PathKind \<Rightarrow> ui_state \<Rightarrow> ui_state" where
  "assignBrowsed target v kind s =
     s\<lparr>config :=
         (if target = THdr10plus then (config s)\<lparr>hdr10plusPath := v, hdrPath := []\<rparr>
          else if target = THdr then (config s)\<lparr>hdr10plusPath := [], hdrPath := v\<rparr>
          else if target = TDv then (config s)\<lparr>dvPath := v\<rparr>
          else (config s)\<lparr>outputPath := v\<rparr>),
       pathKinds :=
         (if target \<noteq> THdr10plus then
            (case target of
               THdr \<Rightarrow> (pathKinds s)\<lparr>pk_hdr := kind\<rparr>
             | TDv \<Rightarrow> (pathKinds s)\<lparr>pk_dv := kind\<rparr>
             | TOutput \<Rightarrow> (pathKinds s)\<lparr>pk_output := kind\<rparr>
             | THdr10plus \<Rightarrow> (pathKinds s)\<lparr>pk_hdr10plus := kind\<rparr>)
          else (pathKinds s)\<lparr>pk_hdr10plus := kind\<rparr>)\<rparr>"

text \<open>
  \<^verbatim>\<open>browseFile\<close>. \<open>tauri\<close> is \<^verbatim>\<open>isTauri()\<close>; \<open>answer\<close> is what the prompt or the
  dialog returned, \<open>None\<close> for a cancelled one. Without the host runtime the manual prompt's
  answer is used when it is not empty.
\<close>

definition browseFile :: "bool \<Rightarrow> Target \<Rightarrow> string option \<Rightarrow> ui_state \<Rightarrow> ui_state" where
  "browseFile tauri target answer s =
     (if \<not> tauri then
        (case answer of
           None \<Rightarrow> s
         | Some manual \<Rightarrow> if manual \<noteq> [] then assignBrowsed target manual File s else s)
      else if target = TOutput then
        (case answer of
           None \<Rightarrow> s
         | Some selected \<Rightarrow>
             s\<lparr>config := (config s)\<lparr>outputPath := selected\<rparr>,
               pathKinds := (pathKinds s)\<lparr>pk_output := File\<rparr>\<rparr>)
      else
        (case answer of
           None \<Rightarrow> s
         | Some selected \<Rightarrow> assignBrowsed target selected File s))"

definition browseFolder :: "bool \<Rightarrow> Target \<Rightarrow> string option \<Rightarrow> ui_state \<Rightarrow> ui_state" where
  "browseFolder tauri target answer s =
     (if \<not> tauri then
        (case answer of
           None \<Rightarrow> s
         | Some manual \<Rightarrow> if manual \<noteq> [] then assignBrowsed target manual Folder s else s)
      else
        (case answer of
           None \<Rightarrow> s
         | Some selected \<Rightarrow> assignBrowsed target selected Folder s))"

text \<open>
  \<^verbatim>\<open>handleDropAssign\<close>: the dropped item goes to the HDR10+, the DV or the HDR slot by
  the keywords in its lower-cased name (the path when there is no name).
\<close>

definition handleDropAssign :: "string \<Rightarrow> bool \<Rightarrow> string option \<Rightarrow> ui_state \<Rightarrow> ui_state" where
  "handleDropAssign path isFolder name s =
     (let label =
            (case name of
               None \<Rightarrow> toLowerCase path
             | Some n \<Rightarrow> or_str (toLowerCase n) (toLowerCase path));
          isHdr10plus =
            (includes_str label ''hdr10'' \<or> includes_str label ''hdr10+''
             \<or> includes_str label ''hdr10plus'');
          isDv =
            (includes_str label ''dv'' \<or> includes_str label ''dovi''
             \<or> includes_str label ''dolby'');
          isHdr = includes_str label ''hdr'';
          kind = (if isFolder then Folder else File)
      in if isHdr10plus then
           s\<lparr>config := (config s)\<lparr>hdr10plusPath := path, hdrPath := []\<rparr>,
             pathKinds := (pathKinds s)\<lparr>pk_hdr10plus := kind\<rparr>\<rparr>
         else if isDv \<or> (dvPath (config s) = [] \<and> \<not> isHdr) then
           s\<lparr>config := (config s)\<lparr>dvPath := path\<rparr>,
             pathKinds := (pathKinds s)\<lparr>pk_dv := kind\<rparr>\<rparr>
         else if isHdr \<or> hdrPath (config s) = [] then
           s\<lparr>config := (config s)\<lparr>hdrPath := path, hdr10plusPath := []\<rparr>,
             pathKinds := (pathKinds s)\<lparr>pk_hdr := kind\<rparr>\<rparr>
         else s)"

subsection \<open>Queue\<close>

text \<open>
  The default output name of a single-mode entry, as the source computes it:
  \<^verbatim>\<open>`${hdrLabel.replace('.mkv', '')}.hybrid.mkv`\<close>.
\<close>

definition defaultOutputName :: "string \<Rightarrow> string" where
  "defaultOutputName hdrLabel = replace_first ''.mkv'' [] hdrLabel @ ''.hybrid.mkv''"

text \<open>
  \<^verbatim>\<open>addToQueue\<close>. \<open>fileId\<close> is the \<^verbatim>\<open>crypto.randomUUID()\<close> of the new entry;
  \<open>logId\<close> and \<open>now\<close> are the identifier and the timestamp of the log line.
\<close>

definition addToQueue :: "string \<Rightarrow> string \<Rightarrow> int \<Rightarrow> ui_state \<Rightarrow> ui_state" where
  "addToQueue fileId logId now s =
     (if derivedHdrPath s = [] \<or> dvPath (config s) = [] then s
      else
        let isBatch = (derivedMode s = Batch);
            hdrLabel = pathLabel (derivedHdrPath s);
            dvLabel = pathLabel (dvPath (config s));
            outputFile =
              (if isBatch then or_str (outputPath (config s)) (defaultOutput (toolPaths s))
               else or_str (outputPath (config s)) (defaultOutputName hdrLabel));
            newFile =
              \<lparr>qf_id = fileId, qf_hdrFile = hdrLabel, qf_dvFile = dvLabel,
               qf_outputFile = outputFile, qf_hdrPath = derivedHdrPath s,
               qf_dvPath = dvPath (config s),
               qf_outputPath = (if isBatch then or_str (outputPath (config s)) [] else outputFile),
               qf_status = FPending, qf_progress = 0, qf_currentStep = None,
               qf_etaSeconds = None, qf_activeWorkers = None, qf_fileTotal = None\<rparr>
        in addLog logId now Info (''Added to queue: '' @ qf_outputFile newFile)
             (s\<lparr>queue := queue s @ [newFile],
                selectedQueueIds := insert (qf_id newFile) (selectedQueueIds s),
                config := (config s)\<lparr>hdrPath := [], hdr10plusPath := [], dvPath := [],
                                      outputPath := []\<rparr>\<rparr>))"

text \<open>
  \<^verbatim>\<open>handleReorderQueue\<close>: the moved item is cut out and put back at the index the
  target had.
\<close>

definition findIndex :: "('a \<Rightarrow> bool) \<Rightarrow> 'a list \<Rightarrow> nat option" where
  "findIndex P xs = (if \<exists>x \<in> set xs. P x then Some (length (takeWhile (\<lambda>x. \<not> P x) xs)) else None)"

definition handleReorderQueue :: "string \<Rightarrow> string \<Rightarrow> ui_state \<Rightarrow> ui_state" where
  "handleReorderQueue sourceId targetId s =
     (case (findIndex (\<lambda>item. qf_id item = sourceId) (queue s),
            findIndex (\<lambda>item. qf_id item = targetId) (queue s)) of
        (Some sourceIndex, Some targetIndex) \<Rightarrow>
          (let prev = queue s;
               moved = prev ! sourceIndex;
               next = take sourceIndex prev @ drop (Suc sourceIndex) prev
           in s\<lparr>queue := take targetIndex next @ [moved] @ drop targetIndex next\<rparr>)
      | _ \<Rightarrow> s)"

text \<open>The selection callbacks handed to \<^verbatim>\<open>FileQueue\<close>. A JavaScript \<^verbatim>\<open>Set\<close> is finite.\<close>

definition onToggle :: "string \<Rightarrow> ui_state \<Rightarrow> ui_state" where
  "onToggle i s =
     s\<lparr>selectedQueueIds :=
         (if i \<in> selectedQueueIds s then selectedQueueIds s - {i}
          else insert i (selectedQueueIds s))\<rparr>"

definition onToggleAll :: "ui_state \<Rightarrow> ui_state" where
  "onToggleAll s =
     s\<lparr>selectedQueueIds :=
         (if card (selectedQueueIds s) = length (queue s) then {}
          else set (map qf_id (queue s)))\<rparr>"

definition handleClear :: "ui_state \<Rightarrow> ui_state" where
  "handleClear s =
     s\<lparr>logs := [], steps := defaultSteps, status := Idle, queue := [], fileProgress := [],
       queueMetaRef := Map.empty, fileMetaRef := Map.empty, selectedQueueIds := {}\<rparr>"

subsection \<open>Presets\<close>

definition applyPreset :: "string \<Rightarrow> ui_state \<Rightarrow> ui_state" where
  "applyPreset presetId s =
     (case find (\<lambda>item. ps_id item = presetId) (presets s) of
        None \<Rightarrow> s
      | Some preset \<Rightarrow>
          s\<lparr>config := ps_config preset,
            toolPaths := ps_toolPaths preset,
            dvDelayInput := or_str (ps_dvDelayInput preset) [],
            hdr10plusDelayInput := or_str (ps_hdr10plusDelayInput preset) [],
            showDelays := ps_showDelays preset,
            pathKinds :=
              \<lparr>pk_hdr = inferPathKind (hdrPath (ps_config preset)),
               pk_hdr10plus = inferPathKind (hdr10plusPath (ps_config preset)),
               pk_dv = inferPathKind (dvPath (ps_config preset)),
               pk_output = inferPathKind (outputPath (ps_config preset))\<rparr>\<rparr>)"

text \<open>
  \<^verbatim>\<open>savePreset\<close>: \<open>answer\<close> is what \<^verbatim>\<open>window.prompt\<close> returned, \<open>uuid\<close> the new
  preset's identifier.
\<close>

definition savePreset :: "string option \<Rightarrow> string \<Rightarrow> ui_state \<Rightarrow> ui_state" where
  "savePreset answer uuid s =
     (case answer of
        None \<Rightarrow> s
      | Some name \<Rightarrow>
          if name = [] then s
          else
            s\<lparr>presets :=
                presets s @
                  [\<lparr>ps_id = uuid, ps_name = name, ps_config = config s,
                    ps_toolPaths = toolPaths s, ps_dvDelayInput = dvDelayInput s,
                    ps_hdr10plusDelayInput = hdr10plusDelayInput s,
                    ps_showDelays = showDelays s\<rparr>],
              selectedPresetId := uuid\<rparr>)"

definition handlePresetChange :: "string \<Rightarrow> string option \<Rightarrow> string \<Rightarrow> ui_state \<Rightarrow> ui_state" where
  "handlePresetChange v answer uuid s =
     (if v = ''__save__'' then savePreset answer uuid s
      else applyPreset v (s\<lparr>selectedPresetId := v\<rparr>))"

subsection \<open>Settings\<close>

text \<open>The callbacks handed to \<^verbatim>\<open>ToolSettings\<close>, and the delay inputs.\<close>

definition onSaveToolPaths :: "ToolPaths \<Rightarrow> ui_state \<Rightarrow> ui_state" where
  "onSaveToolPaths tp s = s\<lparr>toolPaths := tp\<rparr>"

definition onParallelTasksChange :: "number \<Rightarrow> ui_state \<Rightarrow> ui_state" where
  "onParallelTasksChange v s = s\<lparr>config := (config s)\<lparr>parallelTasks := v\<rparr>\<rparr>"

definition onKeepTempFilesChange :: "bool \<Rightarrow> ui_state \<Rightarrow> ui_state" where
  "onKeepTempFilesChange v s = s\<lparr>config := (config s)\<lparr>keepTempFiles := v\<rparr>\<rparr>"

definition setDvDelayInput :: "string \<Rightarrow> ui_state \<Rightarrow> ui_state" where
  "setDvDelayInput v s = s\<lparr>dvDelayInput := v\<rparr>"

definition setHdr10plusDelayInput :: "string \<Rightarrow> ui_state \<Rightarrow> ui_state" where
  "setHdr10plusDelayInput v s = s\<lparr>hdr10plusDelayInput := v\<rparr>"

definition toggleShowDelays :: "ui_state \<Rightarrow> ui_state" where
  "toggleShowDelays s = s\<lparr>showDelays := \<not> showDelays s\<rparr>"

subsection \<open>Submission\<close>

text \<open>
  What a handler asks of the outside: a command of the host runtime, or the local
  simulation \<^verbatim>\<open>simulateProcessing\<close>.
\<close>

datatype 'r Action = Invoke_start_processing 'r | Invoke_cancel_processing | SimulateProcessing

text \<open>\<^verbatim>\<open>s.trim()\<close>, on the ASCII white space.\<close>

definition isSpace :: "char \<Rightarrow> bool" where
  "isSpace c = ((of_char c :: nat) \<in> {9, 10, 11, 12, 13, 32})"

definition trim :: "string \<Rightarrow> string" where
  "trim s = rev (dropWhile isSpace (rev (dropWhile isSpace s)))"

text \<open>
  \<^verbatim>\<open>parseDelay\<close>. \<open>parseFloat\<close> stands for \<^verbatim>\<open>Number.parseFloat\<close>, with \<open>None\<close> for
  a result that is not finite.
\<close>

definition parseDelay :: "(string \<Rightarrow> number option) \<Rightarrow> string \<Rightarrow> number" where
  "parseDelay parseFloat v =
     (let trimmed = trim v
      in if trimmed = [] \<or> trimmed = ''+'' \<or> trimmed = ''-'' then 0
         else (case parseFloat trimmed of Some parsed \<Rightarrow> parsed | None \<Rightarrow> 0))"

text \<open>
  \<^verbatim>\<open>handleStart\<close> of the revision with HDR10+ support, up to the call of the command.
  With an empty selection the whole queue is sent.
\<close>

definition handleStart ::
  "bool \<Rightarrow> (string \<Rightarrow> number option) \<Rightarrow> string \<Rightarrow> int \<Rightarrow> ui_state
     \<Rightarrow> ui_state \<times> ProcessingRequest Action option" where
  "handleStart tauri parseFloat logId now s =
     (if derivedMode s = Single \<and> (derivedHdrPath s = [] \<or> dvPath (config s) = []) then
        (addLog logId now LError ''Please specify HDR/HDR10+ and DV source paths'' s, None)
      else if derivedMode s = Batch \<and> length (queue s) = 0 then
        (addLog logId now LError ''Please add files to the queue first'' s, None)
      else if \<not> tauri then (s, Some SimulateProcessing)
      else
        let queueToProcess =
              (if derivedMode s = Batch then
                 (if selectedQueueIds s \<noteq> {} then
                    filter (\<lambda>item. qf_id item \<in> selectedQueueIds s) (queue s)
                  else queue s)
               else []);
            request =
              \<lparr>rq_mode = derivedMode s,
               rq_hdrPath = derivedHdrPath s,
               rq_dvPath = dvPath (config s),
               rq_outputPath = outputPath (config s),
               rq_hdr10plusPath = hdr10plusPath (config s),
               rq_dvDelayMs = parseDelay parseFloat (dvDelayInput s),
               rq_hdr10plusDelayMs = parseDelay parseFloat (hdr10plusDelayInput s),
               rq_keepTempFiles = keepTempFiles (config s),
               rq_parallelTasks = parallelTasks (config s),
               rq_toolPaths = toolPaths s,
               rq_queue = queueToProcess\<rparr>
        in (s\<lparr>steps := defaultSteps, status := Processing, fileProgress := [],
              fileMetaRef := Map.empty\<rparr>,
            Some (Invoke_start_processing request)))"

text \<open>The \<^verbatim>\<open>catch\<close> branch of \<^verbatim>\<open>handleStart\<close>, run when the command is rejected.\<close>

definition handleStartRejected :: "string \<Rightarrow> int \<Rightarrow> string \<Rightarrow> ui_state \<Rightarrow> ui_state" where
  "handleStartRejected logId now message s = (addLog logId now LError message s)\<lparr>status := Error\<rparr>"

definition handleStop ::
  "bool \<Rightarrow> string \<Rightarrow> int \<Rightarrow> ui_state \<Rightarrow> ui_state \<times> ProcessingRequest Action option" where
  "handleStop tauri logId now s =
     (if tauri then (s, Some Invoke_cancel_processing)
      else
        ((addLog logId now Warning ''Processing cancelled by user''
            (s\<lparr>status := Idle, steps := defaultSteps,
               queue := map (\<lambda>f. f\<lparr>qf_status := FPending, qf_progress := 0\<rparr>) (queue s)\<rparr>))
           \<lparr>fileProgress := [], fileMetaRef := Map.empty\<rparr>,
         None))"

text \<open>
  What the rendered form lets the user press. \<^verbatim>\<open>isProcessing\<close> is
  \<^verbatim>\<open>status === 'processing'\<close>. The Add to Queue button is rendered under
  \<^verbatim>\<open>derivedMode === 'batch'\<close> and disabled by
  \<^verbatim>\<open>isProcessing || !derivedHdrPath || !config.dvPath\<close>; it is the only caller of
  \<^verbatim>\<open>addToQueue\<close>. The Start button is rendered under \<^verbatim>\<open>!isProcessing\<close> with the
  \<^verbatim>\<open>disabled\<close> attribute modelled by \<open>startDisabled\<close>; it is the only caller of
  \<^verbatim>\<open>handleStart\<close>. A handler reads the state of the render its button belongs to.
\<close>

definition isProcessing :: "ui_state \<Rightarrow> bool" where
  "isProcessing s = (status s = Processing)"

definition addToQueueClickable :: "ui_state \<Rightarrow> bool" where
  "addToQueueClickable s =
     (derivedMode s = Batch
      \<and> \<not> (isProcessing s \<or> derivedHdrPath s = [] \<or> dvPath (config s) = []))"

definition startDisabled :: "ui_state \<Rightarrow> bool" where
  "startDisabled s =
     (if derivedMode s = Single then derivedHdrPath s = [] \<or> dvPath (config s) = []
      else length (queue s) = 0 \<or> selectedQueueIds s = {})"

definition startClickable :: "ui_state \<Rightarrow> bool" where
  "startClickable s = (\<not> isProcessing s \<and> \<not> startDisabled s)"

subsection \<open>Runs of the component\<close>

text \<open>
  The ways the state changes, one constructor per handler or listener, with what the
  environment supplies as arguments. \<open>PresetsLoaded\<close> is the mount effect installing the
  array it found in client storage as the presets. \<open>SimulationUpdate\<close> stands for any of
  the updates \<^verbatim>\<open>simulateProcessing\<close> makes: it writes the status, the log, the steps
  and the queue, and nothing else.
\<close>

datatype Event =
    ChangeHdr string
  | ChangeDv string
  | ChangeHdr10plus string
  | ChangeOutput string
  | BrowseFile bool Target "string option"
  | BrowseFolder bool Target "string option"
  | DropAssign string bool "string option"
  | AddToQueue string string int
  | Reorder string string
  | Toggle string
  | ToggleAll
  | Clear
  | PresetsLoaded "Preset list"
  | PresetChange string "string option" string
  | SavePreset "string option" string
  | SaveToolPaths ToolPaths
  | ParallelTasksChange number
  | KeepTempFilesChange bool
  | SetDvDelayInput string
  | SetHdr10plusDelayInput string
  | ToggleShowDelays
  | Start bool "string \<Rightarrow> number option" string int
  | StartRejected string int string
  | Stop bool string int
  | SimulationUpdate ProcessingStatus "LogEntry list" "ProcessingStep list" "QueueFile list"
  | QueueEvent int QueuePayload
  | FileEvent int FileProgressPayload
  | StatusEvent ProcessingStatus

fun handle :: "Event \<Rightarrow> ui_state \<Rightarrow> ui_state" where
  "handle (ChangeHdr v) s = onChangeHdr v s"
| "handle (ChangeDv v) s = onChangeDv v s"
| "handle (ChangeHdr10plus v) s = onChangeHdr10plus v s"
| "handle (ChangeOutput v) s = onChangeOutput v s"
| "handle (BrowseFile tauri target answer) s = browseFile tauri target answer s"
| "handle (BrowseFolder tauri target answer) s = browseFolder tauri target answer s"
| "handle (DropAssign path isFolder name) s = handleDropAssign path isFolder name s"
| "handle (AddToQueue fileId logId now) s = addToQueue fileId logId now s"
| "handle (Reorder sourceId targetId) s = handleReorderQueue sourceId targetId s"
| "handle (Toggle i) s = onToggle i s"
| "handle ToggleAll s = onToggleAll s"
| "handle Clear s = handleClear s"
| "handle (PresetsLoaded ps) s = s\<lparr>presets := ps\<rparr>"
| "handle (PresetChange v answer uuid) s = handlePresetChange v answer uuid s"
| "handle (SavePreset answer uuid) s = savePreset answer uuid s"
| "handle (SaveToolPaths tp) s = onSaveToolPaths tp s"
| "handle (ParallelTasksChange v) s = onParallelTasksChange v s"
| "handle (KeepTempFilesChange v) s = onKeepTempFilesChange v s"
| "handle (SetDvDelayInput v) s = setDvDelayInput v s"
| "handle (SetHdr10plusDelayInput v) s = setHdr10plusDelayInput v s"
| "handle ToggleShowDelays s = toggleShowDelays s"
| "handle (Start tauri parseFloat logId now) s = fst (handleStart tauri parseFloat logId now s)"
| "handle (StartRejected logId now message) s = handleStartRejected logId now message s"
| "handle (Stop tauri logId now) s = fst (handleStop tauri logId now s)"
| "handle (SimulationUpdate st lg sp q) s = s\<lparr>status := st, logs := lg, steps := sp, queue := q\<rparr>"
| "handle (QueueEvent now payload) s = onProcessingQueue now payload s"
| "handle (FileEvent now payload) s = onProcessingFile now payload s"
| "handle (StatusEvent st) s = fst (onProcessingStatus st s)"

text \<open>The state after a sequence of events, from the initial state.\<close>

definition runEvents :: "Event list \<Rightarrow> ui_state" where
  "runEvents evs = foldl (\<lambda>s e. handle e s) initialState evs"

text \<open>At most one of the HDR path and the HDR10+ path of a configuration is set.\<close>

definition exclusivePaths :: "ProcessingConfig \<Rightarrow> bool" where
  "exclusivePaths c = (hdrPath c = [] \<or> hdr10plusPath c = [])"

text \<open>
  The presets that the mount effect installs in a run each hold at most one of the two
  paths, as every preset written by \<^verbatim>\<open>savePreset\<close> does.
\<close>

fun loadsExclusive :: "Event \<Rightarrow> bool" where
  "loadsExclusive (PresetsLoaded ps) = list_all (\<lambda>p. exclusivePaths (ps_config p)) ps"
| "loadsExclusive _ = True"

subsection \<open>The HDR-only revision: mode derivation and submission\<close>

text \<open>
  The two revisions without HDR10+ support share the mode derivation and the start
  handler modelled here. Their names carry the suffix \<open>2\<close>.
\<close>

record ToolPaths2 =
  tp2_doviTool :: string
  tp2_mkvmerge :: string
  tp2_mkvextract :: string
  tp2_ffmpeg :: string
  tp2_defaultOutput :: string

record ProcessingConfig2 =
  hdrPath2 :: string
  dvPath2 :: string
  outputPath2 :: string
  mode2 :: ProcessingMode
  parallelTasks2 :: number
  keepTempFiles2 :: bool

record PathKinds2 =
  pk2_hdr :: PathKind
  pk2_dv :: PathKind
  pk2_output :: PathKind

record meta2 =
  m2_start :: int
  m2_lastProgress :: number


record ui_state2 =
  pathKinds2 :: PathKinds2
  config2 :: ProcessingConfig2
  toolPaths2 :: ToolPaths2
  status2 :: ProcessingStatus
  steps2 :: "ProcessingStep list"
  logs2 :: "LogEntry list"
  queue2 :: "QueueFile list"
  fileProgress2 :: "FileProgressEntry list"
  queueMetaRef2 :: "string \<rightharpoonup> meta2"
  fileMetaRef2 :: "string \<rightharpoonup> meta2"
  selectedQueueIds2 :: "string set"

definition addLog2 :: "string \<Rightarrow> int \<Rightarrow> LogType \<Rightarrow> string \<Rightarrow> ui_state2 \<Rightarrow> ui_state2" where
  "addLog2 uuid now ty msg s =
     s\<lparr>logs2 := logs2 s @ [\<lparr>log_id = uuid, log_timestamp = now, log_type = ty,
                             log_message = msg\<rparr>]\<rparr>"

text \<open>The mode derivation by path kinds only.\<close>

definition derivedMode2 :: "ui_state2 \<Rightarrow> ProcessingMode" where
  "derivedMode2 s =
     (if pk2_hdr (pathKinds2 s) = Folder \<and> pk2_dv (pathKinds2 s) = Folder then Batch else Single)"


text \<open>
  The initial state of the HDR-only revision, the \<^verbatim>\<open>onChange\<close> handlers of its HDR
  and DV inputs, its \<^verbatim>\<open>addToQueue\<close> and its \<^verbatim>\<open>handleClear\<close>.
\<close>

definition defaultToolPaths2 :: ToolPaths2 where
  "defaultToolPaths2 =
     \<lparr>tp2_doviTool = ''dovi_tool'', tp2_mkvmerge = ''mkvmerge'', tp2_mkvextract = ''mkvextract'',
      tp2_ffmpeg = ''ffmpeg'', tp2_defaultOutput = ''DV.HDR''\<rparr>"

definition initialState2 :: ui_state2 where
  "initialState2 =
     \<lparr>pathKinds2 = \<lparr>pk2_hdr = Unknown, pk2_dv = Unknown, pk2_output = Unknown\<rparr>,
      config2 = \<lparr>hdrPath2 = [], dvPath2 = [], outputPath2 = [], mode2 = Single,
                 parallelTasks2 = 4, keepTempFiles2 = False\<rparr>,
      toolPaths2 = defaultToolPaths2,
      status2 = Idle, steps2 = defaultSteps, logs2 = [], queue2 = [], fileProgress2 = [],
      queueMetaRef2 = Map.empty, fileMetaRef2 = Map.empty, selectedQueueIds2 = {}\<rparr>"

definition onChangeHdr2 :: "string \<Rightarrow> ui_state2 \<Rightarrow> ui_state2" where
  "onChangeHdr2 v s =
     s\<lparr>config2 := (config2 s)\<lparr>hdrPath2 := v\<rparr>,
       pathKinds2 := (pathKinds2 s)\<lparr>pk2_hdr := inlinePathKind v\<rparr>\<rparr>"

definition onChangeDv2 :: "string \<Rightarrow> ui_state2 \<Rightarrow> ui_state2" where
  "onChangeDv2 v s =
     s\<lparr>config2 := (config2 s)\<lparr>dvPath2 := v\<rparr>,
       pathKinds2 := (pathKinds2 s)\<lparr>pk2_dv := inlinePathKind v\<rparr>\<rparr>"

definition addToQueue2 :: "string \<Rightarrow> string \<Rightarrow> int \<Rightarrow> ui_state2 \<Rightarrow> ui_state2" where
  "addToQueue2 fileId logId now s =
     (if hdrPath2 (config2 s) = [] \<or> dvPath2 (config2 s) = [] then s
      else
        let isBatch = (derivedMode2 s = Batch);
            hdrLabel = pathLabel (hdrPath2 (config2 s));
            dvLabel = pathLabel (dvPath2 (config2 s));
            outputFile =
              (if isBatch then or_str (outputPath2 (config2 s)) (tp2_defaultOutput (toolPaths2 s))
               else or_str (outputPath2 (config2 s)) (defaultOutputName hdrLabel));
            newFile =
              \<lparr>qf_id = fileId, qf_hdrFile = hdrLabel, qf_dvFile = dvLabel,
               qf_outputFile = outputFile, qf_hdrPath = hdrPath2 (config2 s),
               qf_dvPath = dvPath2 (config2 s),
               qf_outputPath = (if isBatch then or_str (outputPath2 (config2 s)) [] else outputFile),
               qf_status = FPending, qf_progress = 0, qf_currentStep = None,
               qf_etaSeconds = None, qf_activeWorkers = None, qf_fileTotal = None\<rparr>
        in addLog2 logId now Info (''Added to queue: '' @ qf_outputFile newFile)
             (s\<lparr>queue2 := queue2 s @ [newFile],
                selectedQueueIds2 := insert (qf_id newFile) (selectedQueueIds2 s),
                config2 := (config2 s)\<lparr>hdrPath2 := [], dvPath2 := [], outputPath2 := []\<rparr>\<rparr>))"

definition handleClear2 :: "ui_state2 \<Rightarrow> ui_state2" where
  "handleClear2 s =
     s\<lparr>logs2 := [], steps2 := defaultSteps, status2 := Idle, queue2 := [], fileProgress2 := [],
       queueMetaRef2 := Map.empty, fileMetaRef2 := Map.empty, selectedQueueIds2 := {}\<rparr>"

text \<open>
  The buttons of the HDR-only revision, as in the other revision but on
  \<^verbatim>\<open>config.hdrPath\<close>. The third revision names the negation of the Start button's
  \<^verbatim>\<open>disabled\<close> attribute \<^verbatim>\<open>canStart\<close>.
\<close>

definition isProcessing2 :: "ui_state2 \<Rightarrow> bool" where
  "isProcessing2 s = (status2 s = Processing)"

definition addToQueueClickable2 :: "ui_state2 \<Rightarrow> bool" where
  "addToQueueClickable2 s =
     (derivedMode2 s = Batch
      \<and> \<not> (isProcessing2 s \<or> hdrPath2 (config2 s) = [] \<or> dvPath2 (config2 s) = []))"



subsection \<open>Persisted settings\<close>

text \<open>
  What \<^verbatim>\<open>JSON.parse\<close> returns. The loaders do not check what they read, so the state
  they produce is modelled as the values they really hold: an object is a map from property
  names to values.
\<close>

datatype json =
    JNull
  | JBool bool
  | JNum rat
  | JStr string
  | JArr "json list"
  | JObj "(string \<times> json) list"

datatype exn = SyntaxError | TypeError

text \<open>
  \<^verbatim>\<open>JSON.parse\<close> itself is a parameter \<open>parse\<close> of the loaders, with \<open>None\<close> for a text
  that is not JSON; there the call throws a \<^verbatim>\<open>SyntaxError\<close>.
\<close>

definition tryParse :: "(string \<Rightarrow> json option) \<Rightarrow> string \<Rightarrow> exn + json" where
  "tryParse parse txt = (case parse txt of None \<Rightarrow> Inl SyntaxError | Some v \<Rightarrow> Inr v)"

definition digitChar :: "nat \<Rightarrow> char" where
  "digitChar n = char_of (48 + n)"

fun decimal :: "nat \<Rightarrow> string" where
  "decimal n = (if n < 10 then [digitChar n] else decimal (n div 10) @ [digitChar (n mod 10)])"

declare decimal.simps [simp del]

text \<open>
  The own enumerable properties of a value, which the spread \<^verbatim>\<open>{...v}\<close> copies: those
  of an object (the last of two equal keys counts), the elements of an array and the
  characters of a string under their indices, and none for \<^verbatim>\<open>null\<close>, a number or a
  boolean.
\<close>

fun ownProps :: "json \<Rightarrow> (string \<rightharpoonup> json)" where
  "ownProps (JObj kvs) = map_of (rev kvs)"
| "ownProps (JArr xs) = map_of (zip (map decimal [0..<length xs]) xs)"
| "ownProps (JStr cs) = map_of (zip (map decimal [0..<length cs]) (map (\<lambda>c. JStr [c]) cs))"
| "ownProps v = Map.empty"

text \<open>
  \<^verbatim>\<open>v.name\<close> for a property name that no array, string, number or boolean has:
  reading it from \<^verbatim>\<open>null\<close> throws, and \<open>None\<close> is \<^verbatim>\<open>undefined\<close>.
\<close>

fun getProp :: "json \<Rightarrow> string \<Rightarrow> exn + json option" where
  "getProp JNull k = Inl TypeError"
| "getProp (JObj kvs) k = Inr (map_of (rev kvs) k)"
| "getProp v k = Inr None"

text \<open>\<^verbatim>\<open>a ?? b\<close> on a value that may be \<^verbatim>\<open>undefined\<close> or \<^verbatim>\<open>null\<close>.\<close>

fun nullishJ :: "json option \<Rightarrow> json \<Rightarrow> json" where
  "nullishJ None b = b"
| "nullishJ (Some JNull) b = b"
| "nullishJ (Some v) b = v"

text \<open>The objects that the typed initial values are.\<close>

definition modeName :: "ProcessingMode \<Rightarrow> string" where
  "modeName m = (case m of Single \<Rightarrow> ''single'' | Batch \<Rightarrow> ''batch'')"

definition configObject :: "ProcessingConfig \<Rightarrow> (string \<rightharpoonup> json)" where
  "configObject c =
     map_of
       [(''hdrPath'', JStr (hdrPath c)), (''dvPath'', JStr (dvPath c)),
        (''outputPath'', JStr (outputPath c)), (''hdr10plusPath'', JStr (hdr10plusPath c)),
        (''dvDelayMs'', JNum (dvDelayMs c)), (''hdr10plusDelayMs'', JNum (hdr10plusDelayMs c)),
        (''mode'', JStr (modeName (mode c))), (''parallelTasks'', JNum (parallelTasks c)),
        (''keepTempFiles'', JBool (keepTempFiles c))]"

definition toolPathsObject :: "ToolPaths \<Rightarrow> (string \<rightharpoonup> json)" where
  "toolPathsObject t =
     map_of
       [(''doviTool'', JStr (doviTool t)), (''mkvmerge'', JStr (mkvmerge t)),
        (''mkvextract'', JStr (mkvextract t)), (''ffmpeg'', JStr (ffmpeg t)),
        (''mediainfo'', JStr (mediainfo t)), (''mp4box'', JStr (mp4box t)),
        (''hdr10plusTool'', JStr (hdr10plusTool t)),
        (''defaultOutput'', JStr (defaultOutput t))]"

text \<open>The three persisted cells of the revision with presets.\<close>

record loaded_state =
  ld_config :: "string \<rightharpoonup> json"
  ld_toolPaths :: "string \<rightharpoonup> json"
  ld_presets :: "json list"

definition initialLoaded :: loaded_state where
  "initialLoaded =
     \<lparr>ld_config = configObject initialConfig,
      ld_toolPaths = toolPathsObject defaultToolPaths,
      ld_presets = []\<rparr>"

text \<open>
  The mount effect of the revision with presets, one function per storage entry. \<open>saved\<close>
  is what \<^verbatim>\<open>localStorage.getItem\<close> returned; the second result lists the lines written
  with \<^verbatim>\<open>console.error\<close>. For the configuration the \<^verbatim>\<open>try\<close> block only parses: the
  function handed to \<^verbatim>\<open>setConfig\<close> reads \<^verbatim>\<open>parsed.parallelTasks\<close> when the state
  update is applied, outside the block, so that a stored \<^verbatim>\<open>null\<close> ends in a
  \<^verbatim>\<open>TypeError\<close> that nothing catches.
\<close>

definition loadConfig ::
  "(string \<Rightarrow> json option) \<Rightarrow> string option \<Rightarrow> (string \<rightharpoonup> json)
     \<Rightarrow> exn + ((string \<rightharpoonup> json) \<times> string list)" where
  "loadConfig parse saved prev =
     (case saved of
        None \<Rightarrow> Inr (prev, [])
      | Some txt \<Rightarrow>
          if txt = [] then Inr (prev, [])
          else
            (case tryParse parse txt of
               Inl e \<Rightarrow> Inr (prev, [''Failed to load config''])
             | Inr parsed \<Rightarrow>
                 (case getProp parsed ''parallelTasks'' of
                    Inl e \<Rightarrow> Inl e
                  | Inr pt \<Rightarrow>
                      (case getProp parsed ''keepTempFiles'' of
                         Inl e \<Rightarrow> Inl e
                       | Inr kt \<Rightarrow>
                           Inr (prev(''parallelTasks'' \<mapsto> nullishJ pt (JNum 4),
                                     ''keepTempFiles'' \<mapsto> nullishJ kt (JBool False)),
                                [])))))"

definition loadTools ::
  "(string \<Rightarrow> json option) \<Rightarrow> string option \<Rightarrow> (string \<rightharpoonup> json)
     \<Rightarrow> (string \<rightharpoonup> json) \<times> string list" where
  "loadTools parse saved prev =
     (case saved of
        None \<Rightarrow> (prev, [])
      | Some txt \<Rightarrow>
          if txt = [] then (prev, [])
          else
            (case tryParse parse txt of
               Inl e \<Rightarrow> (prev, [''Failed to load tool paths''])
             | Inr parsed \<Rightarrow> (toolPathsObject defaultToolPaths ++ ownProps parsed, [])))"

definition loadPresets ::
  "(string \<Rightarrow> json option) \<Rightarrow> string option \<Rightarrow> json list \<Rightarrow> json list \<times> string list" where
  "loadPresets parse saved prev =
     (case saved of
        None \<Rightarrow> (prev, [])
      | Some txt \<Rightarrow>
          if txt = [] then (prev, [])
          else
            (case tryParse parse txt of
               Inl e \<Rightarrow> (prev, [''Failed to load presets''])
             | Inr parsed \<Rightarrow> (case parsed of JArr xs \<Rightarrow> (xs, []) | _ \<Rightarrow> (prev, []))))"

definition loadSettings ::
  "(string \<Rightarrow> json option) \<Rightarrow> (string \<rightharpoonup> string) \<Rightarrow> loaded_state
     \<Rightarrow> exn + (loaded_state \<times> string list)" where
  "loadSettings parse storage st =
     (let (t, logT) = loadTools parse (storage ''hybrid-dv-hdr-tools'') (ld_toolPaths st);
          (p, logP) = loadPresets parse (storage ''hybrid-dv-hdr-presets'') (ld_presets st)
      in case loadConfig parse (storage ''hybrid-dv-hdr-config'') (ld_config st) of
           Inl e \<Rightarrow> Inl e
         | Inr (c, logC) \<Rightarrow>
             Inr (\<lparr>ld_config = c, ld_toolPaths = t, ld_presets = p\<rparr>, logC @ logT @ logP))"

text \<open>
  The lazy \<^verbatim>\<open>useState\<close> initialisers of the revision with debounced persistence
  (suffix \<open>3\<close>). \<open>hasWindow\<close> is \<^verbatim>\<open>typeof window !== 'undefined'\<close>. Everything from
  reading the entry to the spread is inside the \<^verbatim>\<open>try\<close> block.
\<close>

definition defaultConfigObject3 :: "string \<rightharpoonup> json" where
  "defaultConfigObject3 =
     map_of
       [(''hdrPath'', JStr []), (''dvPath'', JStr []), (''outputPath'', JStr []),
        (''mode'', JStr ''single''), (''parallelTasks'', JNum 8),
        (''keepTempFiles'', JBool False)]"

definition defaultToolPathsObject3 :: "string \<rightharpoonup> json" where
  "defaultToolPathsObject3 =
     map_of
       [(''doviTool'', JStr (''bin'' @ [backslash] @ ''dovi_tool.exe'')),
        (''mkvmerge'', JStr (''bin'' @ [backslash] @ ''mkvmerge.exe'')),
        (''mkvextract'', JStr (''bin'' @ [backslash] @ ''mkvextract.exe'')),
        (''ffmpeg'', JStr (''bin'' @ [backslash] @ ''ffmpeg.exe'')),
        (''defaultOutput'', JStr ''DV.HDR'')]"

definition initialFromStorage3 ::
  "(string \<rightharpoonup> json) \<Rightarrow> bool \<Rightarrow> (string \<Rightarrow> json option) \<Rightarrow> string option
     \<Rightarrow> (string \<rightharpoonup> json)" where
  "initialFromStorage3 defaults hasWindow parse stored =
     (if \<not> hasWindow then defaults
      else
        (case (case stored of
                 None \<Rightarrow> Inr defaults
               | Some txt \<Rightarrow>
                   if txt = [] then Inr defaults
                   else (case tryParse parse txt of
                           Inl e \<Rightarrow> Inl e
                         | Inr parsed \<Rightarrow> Inr (defaults ++ ownProps parsed))) of
           Inl e \<Rightarrow> defaults
         | Inr v \<Rightarrow> v))"

definition initialConfig3 ::
  "bool \<Rightarrow> (string \<Rightarrow> json option) \<Rightarrow> string option \<Rightarrow> (string \<rightharpoonup> json)" where
  "initialConfig3 = initialFromStorage3 defaultConfigObject3"

definition initialToolPaths3 ::
  "bool \<Rightarrow> (string \<Rightarrow> json option) \<Rightarrow> string option \<Rightarrow> (string \<rightharpoonup> json)" where
  "initialToolPaths3 = initialFromStorage3 defaultToolPathsObject3"

text \<open>
  A stand-in for the parser in concrete instances: it knows the empty array and the empty
  object and takes every other text for malformed.
\<close>

definition witnessParse :: "string \<Rightarrow> json option" where
  "witnessParse txt =
     (if txt = ''[]'' then Some (JArr []) else if txt = ''{}'' then Some (JObj []) else None)"

text \<open>Each of the three storage entries is present and holds a text that is not JSON.\<close>

definition allMalformed :: "(string \<Rightarrow> json option) \<Rightarrow> (string \<rightharpoonup> string) \<Rightarrow> bool" where
  "allMalformed parse storage =
     list_all (\<lambda>k. case storage k of None \<Rightarrow> False | Some txt \<Rightarrow> parse txt = None)
       [''hybrid-dv-hdr-config'', ''hybrid-dv-hdr-tools'', ''hybrid-dv-hdr-presets'']"

text \<open>A storage whose three entries are all malformed.\<close>

definition brokenStorage :: "string \<rightharpoonup> string" where
  "brokenStorage =
     [''hybrid-dv-hdr-config'' \<mapsto> ''{parallelTasks:'',
      ''hybrid-dv-hdr-tools'' \<mapsto> ''not json'',
      ''hybrid-dv-hdr-presets'' \<mapsto> ''[{'']"

subsection \<open>Notions used to state the properties of the ETA and of the listeners\<close>

text \<open>The window after a sample at time \<open>now\<close> with the given progress has been appended.\<close>

definition etaWindow :: "int \<Rightarrow> meta \<Rightarrow> number \<Rightarrow> sample list" where
  "etaWindow now meta progress =
     slice_last etaAveragingWindow (m_samples meta @ [\<lparr>s_time = now, s_progress = progress\<rparr>])"

text \<open>
  The rates between consecutive samples of a window, predecessor first, the non-positive
  ones dropped; and their mean.
\<close>

definition positiveRates :: "sample list \<Rightarrow> double list" where
  "positiveRates w = filter positive (map (\<lambda>(prev, smp). pairRate prev smp) (zip w (tl w)))"

definition averageRate :: "sample list \<Rightarrow> double" where
  "averageRate w =
     ddiv (foldl dadd (Num 0) (positiveRates w)) (Num (of_nat (length (positiveRates w))))"

text \<open>Every window kept for a queue item or a file holds at most six samples.\<close>

definition windowsBounded :: "ui_state \<Rightarrow> bool" where
  "windowsBounded s =
     (\<forall>m \<in> ran (queueMetaRef s) \<union> ran (fileMetaRef s). length (m_samples m) \<le> etaAveragingWindow)"

definition refBounded :: "(string \<rightharpoonup> meta) \<Rightarrow> bool" where
  "refBounded r = (\<forall>m \<in> ran r. length (m_samples m) \<le> etaAveragingWindow)"

text \<open>
  The notification for a step from status \<open>prev\<close> to status \<open>cur\<close>: one on an edge
  into \<^verbatim>\<open>completed\<close> or \<^verbatim>\<open>error\<close>, none otherwise.
\<close>

definition completedNotice :: "string \<times> string" where
  "completedNotice = (''Hybrid DV HDR'', ''Processing queue completed successfully.'')"

definition errorNotice :: "string \<times> string" where
  "errorNotice = (''Hybrid DV HDR'', ''Processing failed. Check the console output.'')"

definition notifyOnEdge :: "ProcessingStatus \<Rightarrow> ProcessingStatus \<Rightarrow> (string \<times> string) option" where
  "notifyOnEdge prev cur =
     (if cur \<noteq> prev \<and> cur = Completed then Some completedNotice
      else if cur \<noteq> prev \<and> cur = Error then Some errorNotice
      else None)"

text \<open>The entry of the file-detail view that an event's payload describes.\<close>

definition fileEntry :: "FileProgressPayload \<Rightarrow> double option \<Rightarrow> FileProgressEntry" where
  "fileEntry payload eta =
     \<lparr>fp_id = fpp_id payload, fp_queueId = fpp_queueId payload, fp_name = fpp_name payload,
      fp_progress = fpp_progress payload, fp_etaSeconds = eta\<rparr>"

subsection \<open>Notions used to state the properties of the form and of the submission\<close>


text \<open>
  The invariant of the two HDR-family paths: the form holds at most one of them, and so
  does every preset.
\<close>

definition presetsExclusive :: "ui_state \<Rightarrow> bool" where
  "presetsExclusive s = list_all (\<lambda>p. exclusivePaths (ps_config p)) (presets s)"

definition pathsInvariant :: "ui_state \<Rightarrow> bool" where
  "pathsInvariant s = (exclusivePaths (config s) \<and> presetsExclusive s)"

subsection \<open>Concrete states, payloads and runs\<close>

text \<open>The inputs at which the theorems below are instantiated.\<close>

definition witnessItem :: "string \<Rightarrow> QueueFile" where
  "witnessItem i =
     \<lparr>qf_id = i, qf_hdrFile = ''hdr.mkv'', qf_dvFile = ''dv.mkv'',
      qf_outputFile = ''hdr.hybrid.mkv'', qf_hdrPath = ''hdr.mkv'', qf_dvPath = ''dv.mkv'',
      qf_outputPath = ''hdr.hybrid.mkv'', qf_status = FPending, qf_progress = 0,
      qf_currentStep = None, qf_etaSeconds = None, qf_activeWorkers = None,
      qf_fileTotal = None\<rparr>"

definition witnessHdrOnly :: ui_state where
  "witnessHdrOnly = onChangeHdr ''movie.mkv'' initialState"

definition witnessBothPaths :: ui_state where
  "witnessBothPaths = onChangeDv ''dv.mkv'' (onChangeHdr10plus ''movie.mkv'' initialState)"

definition queuedUnselected :: ui_state where
  "queuedUnselected = initialState\<lparr>queue := [witnessItem ''a'']\<rparr>"

text \<open>
  A run of the form: a folder is typed into the HDR input and one into the DV input, the
  pair is added to the queue, and the queue is cleared; and the same run with the folder
  typed into the HDR10+ input. The same run in the HDR-only revision.
\<close>

definition hdrFolder :: string where
  "hdrFolder = ''D:/hdr/''"

definition dvFolder :: string where
  "dvFolder = ''D:/dv/''"

definition foldersTyped :: ui_state where
  "foldersTyped = onChangeDv dvFolder (onChangeHdr hdrFolder initialState)"

definition foldersTypedHdr10plus :: ui_state where
  "foldersTypedHdr10plus = onChangeDv dvFolder (onChangeHdr10plus hdrFolder initialState)"

definition foldersQueued :: ui_state where
  "foldersQueued = addToQueue ''a'' ''log1'' 0 foldersTyped"

definition foldersCleared :: ui_state where
  "foldersCleared = handleClear foldersQueued"

definition foldersTyped2 :: ui_state2 where
  "foldersTyped2 = onChangeDv2 dvFolder (onChangeHdr2 hdrFolder initialState2)"

definition foldersQueued2 :: ui_state2 where
  "foldersQueued2 = addToQueue2 ''a'' ''log1'' 0 foldersTyped2"

definition foldersCleared2 :: ui_state2 where
  "foldersCleared2 = handleClear2 foldersQueued2"

definition bothPathsPreset :: Preset where
  "bothPathsPreset =
     \<lparr>ps_id = ''p1'', ps_name = ''stored'',
      ps_config = initialConfig\<lparr>hdrPath := ''a.mkv'', hdr10plusPath := ''b.mkv''\<rparr>,
      ps_toolPaths = defaultToolPaths, ps_dvDelayInput = [], ps_hdr10plusDelayInput = [],
      ps_showDelays = False\<rparr>"

definition hdrPreset :: Preset where
  "hdrPreset =
     \<lparr>ps_id = ''p2'', ps_name = ''stored'',
      ps_config = initialConfig\<lparr>hdrPath := ''a.mkv''\<rparr>,
      ps_toolPaths = defaultToolPaths, ps_dvDelayInput = [], ps_hdr10plusDelayInput = [],
      ps_showDelays = False\<rparr>"

definition witnessRun :: "Event list" where
  "witnessRun =
     [PresetsLoaded [hdrPreset], ChangeHdr10plus ''b.mkv'', PresetChange ''p2'' None [],
      DropAssign ''movie.hdr10plus.mkv'' False None, SavePreset (Some ''mine'') ''p3'']"

definition witnessFilePayload :: "string \<Rightarrow> number \<Rightarrow> FileProgressPayload" where
  "witnessFilePayload i p = \<lparr>fpp_id = i, fpp_queueId = ''a'', fpp_name = ''part.hevc'', fpp_progress = p\<rparr>"

definition witnessFiles :: ui_state where
  "witnessFiles = onProcessingFile 0 (witnessFilePayload ''f1'' 10) initialState"

definition strayQueuePayload :: QueuePayload where
  "strayQueuePayload =
     \<lparr>qp_id = ''zz'', qp_status = FProcessing, qp_progress = 50, qp_currentStep = None,
      qp_activeWorkers = None, qp_fileTotal = None\<rparr>"

section \<open>Properties\<close>

subsection \<open>Path classification\<close>

lemma endsWith_single: "endsWith v [c] \<longleftrightarrow> v \<noteq> [] \<and> last v = c"
proof (cases v rule: rev_cases)
  case Nil
  then show ?thesis by (simp add: endsWith_def)
next
  case (snoc ys y)
  then show ?thesis by (auto simp: endsWith_def)
qed

text \<open>
  Claim C8, as stated, fails for \<^verbatim>\<open>inferPathKind\<close>: the empty string is classified
  \<^verbatim>\<open>'unknown'\<close>, not \<^verbatim>\<open>'file'\<close>.
\<close>

theorem C8_inferPathKind_empty_counterexample:
  "inferPathKind '''' \<noteq> File \<and> inferPathKind '''' = Unknown"
  by (simp add: inferPathKind_def)

text \<open>
  Claim C8, amended: the inline classification of the input handlers yields a folder for
  every string that ends in a backslash or a slash and a file for every other string, the
  empty string included; \<^verbatim>\<open>inferPathKind\<close> agrees with it on every non-empty string
  and yields \<^verbatim>\<open>'unknown'\<close> for the empty string.
\<close>

theorem C8_path_classification:
  "inlinePathKind v = (if endsInSeparator v then Folder else File)
   \<and> inlinePathKind '''' = File
   \<and> inferPathKind v = (if v = '''' then Unknown else inlinePathKind v)"
  by (simp add: inlinePathKind_def inferPathKind_def endsInSeparator_def endsWith_single)

subsection \<open>ETA smoothing\<close>

text \<open>
  The callback of the source reads the predecessor by index; the rates are those of the
  consecutive pairs of the window.
\<close>

lemma enumerate_shift:
  "map (\<lambda>(index, smp). f ((x # xs) ! (index - k)) smp) (enumerate k xs)
     = map (\<lambda>(p, smp). f p smp) (zip (x # xs) xs)"
proof (induction xs arbitrary: x k)
  case Nil
  then show ?case by simp
next
  case (Cons y ys)
  have "map (\<lambda>(index, smp). f ((x # y # ys) ! (index - k)) smp) (enumerate (Suc k) ys)
      = map (\<lambda>(index, smp). f ((y # ys) ! (index - Suc k)) smp) (enumerate (Suc k) ys)"
    by (rule map_cong) (auto simp: in_set_enumerate_eq Suc_diff_le)
  with Cons.IH[of y "Suc k"] show ?case by simp
qed

lemma deltas_pairs:
  "map (\<lambda>(index, smp). f (w ! index) smp) (enumerate 0 (tl w))
     = map (\<lambda>(p, smp). f p smp) (zip w (tl w))"
proof (cases w)
  case Nil
  then show ?thesis by simp
next
  case (Cons x xs)
  then show ?thesis using enumerate_shift[of f x xs 0] by simp
qed

lemma computeSmoothedEta_spec:
  "computeSmoothedEta now meta p =
     (if p \<le> 0 then (None, meta)
      else if positiveRates (etaWindow now meta p) = []
        then (None, meta\<lparr>m_samples := etaWindow now meta p\<rparr>)
      else (Some (math_round (ddiv (max0 (dsub (Num 100) (Num p)))
                                   (averageRate (etaWindow now meta p)))),
            meta\<lparr>m_samples := etaWindow now meta p\<rparr>))"
  unfolding computeSmoothedEta_def etaWindow_def positiveRates_def averageRate_def Let_def
    deltas_pairs
  by simp

lemma length_etaWindow: "length (etaWindow now meta p) \<le> etaAveragingWindow"
  by (simp add: etaWindow_def slice_last_def)

lemma etaWindow_samples_bound:
  "length (m_samples m) \<le> etaAveragingWindow \<Longrightarrow>
   length (m_samples (snd (computeSmoothedEta now m p))) \<le> etaAveragingWindow"
  using length_etaWindow[of now m p] by (simp add: computeSmoothedEta_spec)

lemma positiveRates_single: "positiveRates [x] = []"
  by (simp add: positiveRates_def)

text \<open>Rounding keeps the sign of the exact result.\<close>

lemma pow2_pos: "0 < pow2 k"
  by (simp add: pow2_def)

lemma roundHalfEven_nonneg: "0 \<le> y \<Longrightarrow> 0 \<le> roundHalfEven y"
  by (auto simp: roundHalfEven_def Let_def)

lemma rounded_magnitude_nonneg:
  "0 \<le> (of_int (roundHalfEven (\<bar>x\<bar> / pow2 k)) :: rat) * pow2 k"
proof -
  have "0 \<le> \<bar>x\<bar> / pow2 k" using pow2_pos[of k] by simp
  then have "0 \<le> roundHalfEven (\<bar>x\<bar> / pow2 k)" by (rule roundHalfEven_nonneg)
  then show ?thesis using pow2_pos[of k] by simp
qed

lemma toDouble_nonpos:
  assumes "x \<le> 0"
  shows "toDouble x = NegInfinity \<or> (\<exists>r. r \<le> 0 \<and> toDouble x = Num r)"
proof (cases "x = 0")
  case True
  then show ?thesis by (simp add: toDouble_def)
next
  case False
  with assms have "x < 0" by simp
  then show ?thesis
    using rounded_magnitude_nonneg[of x "max (ilog2 \<bar>x\<bar>) (- 1022) - 52"]
    by (simp add: toDouble_def Let_def)
qed

lemma toDouble_nonneg:
  assumes "0 \<le> x"
  shows "toDouble x = Infinity \<or> (\<exists>r. 0 \<le> r \<and> toDouble x = Num r)"
proof (cases "x = 0")
  case True
  then show ?thesis by (simp add: toDouble_def)
next
  case False
  with assms have "0 < x" by simp
  then show ?thesis
    using rounded_magnitude_nonneg[of x "max (ilog2 \<bar>x\<bar>) (- 1022) - 52"]
    by (simp add: toDouble_def Let_def)
qed

lemma toDouble_not_positive: "x \<le> 0 \<Longrightarrow> \<not> positive (toDouble x)"
  using toDouble_nonpos[of x] by auto

lemma max0_toDouble: "0 \<le> x \<Longrightarrow> max0 (toDouble x) = toDouble x"
  using toDouble_nonneg[of x] by (auto simp: max_def)

lemma remaining_upto100: "p \<le> 100 \<Longrightarrow> max0 (dsub (Num 100) (Num p)) = dsub (Num 100) (Num p)"
  using max0_toDouble[of "100 - p"] by (simp add: dsub_def)

lemma ddiv_nonpos_positive:
  assumes "x \<le> 0" and "positive dt"
  shows "\<not> positive (ddiv (toDouble x) dt)"
proof (cases dt)
  case (Num d)
  with assms(2) have d: "0 < d" by simp
  from toDouble_nonpos[OF assms(1)] show ?thesis
  proof
    assume "toDouble x = NegInfinity"
    with Num d show ?thesis by simp
  next
    assume "\<exists>r. r \<le> 0 \<and> toDouble x = Num r"
    then obtain r where r: "r \<le> 0" "toDouble x = Num r" by blast
    have "r / d \<le> 0" using r(1) d by (simp add: divide_nonpos_pos)
    then have "\<not> positive (toDouble (r / d))" by (rule toDouble_not_positive)
    with Num d r show ?thesis by simp
  qed
next
  case Infinity
  from toDouble_nonpos[OF assms(1)] show ?thesis using Infinity by auto
next
  case NegInfinity
  with assms(2) show ?thesis by simp
next
  case NaN
  with assms(2) show ?thesis by simp
qed

lemma pairRate_decreasing:
  assumes "s_progress b < s_progress a"
  shows "\<not> positive (pairRate a b)"
proof -
  let ?dt = "ddiv (dsub (Num (of_int (s_time b))) (Num (of_int (s_time a)))) (Num 1000)"
  have dp: "dsub (Num (s_progress b)) (Num (s_progress a)) = toDouble (s_progress b - s_progress a)"
    by (simp add: dsub_def)
  show ?thesis
  proof (cases "positive ?dt")
    case True
    from assms have "s_progress b - s_progress a \<le> 0" by simp
    then have "\<not> positive (ddiv (toDouble (s_progress b - s_progress a)) ?dt)"
      using True by (rule ddiv_nonpos_positive)
    with True show ?thesis by (simp add: pairRate_def Let_def dp)
  next
    case False
    then show ?thesis by (simp add: pairRate_def Let_def)
  qed
qed

lemma positiveRates_decreasing:
  "s_progress b < s_progress a \<Longrightarrow> positiveRates [a, b] = []"
  using pairRate_decreasing[of b a] by (simp add: positiveRates_def)

lemma windowsBounded_file:
  assumes "windowsBounded s"
  shows "windowsBounded (onProcessingFile now pl s)"
proof -
  let ?m0 = "case fileMetaRef s (fpp_id pl) of Some m \<Rightarrow> m | None \<Rightarrow> freshMeta now"
  have m0: "length (m_samples ?m0) \<le> etaAveragingWindow"
    using assms by (auto simp: windowsBounded_def freshMeta_def ran_def split: option.splits)
  have new: "length (m_samples (snd (computeSmoothedEta now ?m0 (fpp_progress pl)))) \<le> etaAveragingWindow"
    by (rule etaWindow_samples_bound[OF m0])
  have ref: "fileMetaRef (onProcessingFile now pl s)
      = (fileMetaRef s)(fpp_id pl \<mapsto>
          (snd (computeSmoothedEta now ?m0 (fpp_progress pl)))\<lparr>m_lastProgress := fpp_progress pl\<rparr>)"
    by (simp add: onProcessingFile_def Let_def split_beta)
  have q: "queueMetaRef (onProcessingFile now pl s) = queueMetaRef s"
    by (simp add: onProcessingFile_def Let_def split_beta)
  show ?thesis
    unfolding windowsBounded_def ref q
    using assms new by (auto simp: windowsBounded_def ran_def split: if_splits)
qed

lemma refBounded_upd:
  "refBounded r \<Longrightarrow> length (m_samples m) \<le> etaAveragingWindow \<Longrightarrow> refBounded (r(k \<mapsto> m))"
  by (auto simp: refBounded_def ran_def split: if_splits)

lemma refBounded_del: "refBounded r \<Longrightarrow> refBounded (r(k := None))"
  by (auto simp: refBounded_def ran_def split: if_splits)

lemma refBounded_item:
  assumes "refBounded r"
  shows "refBounded (snd (updateQueueItem now pl item r))"
proof -
  let ?m0 = "case r (qf_id item) of Some m \<Rightarrow> m | None \<Rightarrow> freshMeta now"
  have m0: "length (m_samples ?m0) \<le> etaAveragingWindow"
    using assms by (auto simp: refBounded_def freshMeta_def ran_def split: option.splits)
  have new: "length (m_samples (snd (computeSmoothedEta now ?m0 (qp_progress pl)))) \<le> etaAveragingWindow"
    by (rule etaWindow_samples_bound[OF m0])
  show ?thesis
    using assms new
    by (auto simp: updateQueueItem_def Let_def split_beta intro!: refBounded_upd refBounded_del)
qed

lemma refBounded_mapQueue:
  "refBounded r \<Longrightarrow> refBounded (snd (mapQueue now pl q r))"
proof (induction q arbitrary: r)
  case Nil
  then show ?case by simp
next
  case (Cons item rest)
  show ?case
  proof (cases "qf_id item \<noteq> qp_id pl")
    case True
    then show ?thesis using Cons.IH[OF Cons.prems] by (simp add: split_beta)
  next
    case False
    then show ?thesis
      using Cons.IH[OF refBounded_item[OF Cons.prems, of now pl item]]
      by (simp add: split_beta)
  qed
qed

lemma windowsBounded_alt: "windowsBounded s \<longleftrightarrow> refBounded (queueMetaRef s) \<and> refBounded (fileMetaRef s)"
  by (auto simp: windowsBounded_def refBounded_def)

lemma windowsBounded_queue:
  assumes "windowsBounded s"
  shows "windowsBounded (onProcessingQueue now pl s)"
  using assms refBounded_mapQueue[of "queueMetaRef s" now pl "queue s"]
  by (simp add: windowsBounded_alt onProcessingQueue_def split_beta)

lemma windowsBounded_initial: "windowsBounded initialState"
  by (simp add: windowsBounded_def initialState_def)

text \<open>Small integers are representable, and an integer is its own rounding.\<close>

lemma toDouble_2: "toDouble 2 = Num 2"
  by code_simp

lemma toDouble_10: "toDouble 10 = Num 10"
  by code_simp

lemma toDouble_20: "toDouble 20 = Num 20"
  by code_simp

lemma toDouble_30: "toDouble 30 = Num 30"
  by code_simp

lemma toDouble_60: "toDouble 60 = Num 60"
  by code_simp

lemma toDouble_10000: "toDouble 10000 = Num 10000"
  by code_simp

lemma math_round_of_int: "math_round (Num (of_int n)) = Num (of_int n)"
proof -
  have "\<lfloor>(of_int n :: rat) + 1 / 2\<rfloor> = n" by linarith
  then show ?thesis by simp
qed

lemma math_round_numeral: "math_round (Num (numeral k)) = Num (numeral k)"
  using math_round_of_int[of "numeral k"] by simp

lemma example_run:
  "fileProgress
     (onProcessingFile (t0 + 20000) \<lparr>fpp_id = i, fpp_queueId = q, fpp_name = n, fpp_progress = 40\<rparr>
       (onProcessingFile (t0 + 10000) \<lparr>fpp_id = i, fpp_queueId = q, fpp_name = n, fpp_progress = 20\<rparr>
         (onProcessingFile t0 \<lparr>fpp_id = i, fpp_queueId = q, fpp_name = n, fpp_progress = 0\<rparr>
            initialState)))
   = [\<lparr>fp_id = i, fp_queueId = q, fp_name = n, fp_progress = 40, fp_etaSeconds = Some (Num 30)\<rparr>]"
  by (simp add: onProcessingFile_def initialState_def computeSmoothedEta_spec freshMeta_def
      etaWindow_def slice_last_def etaAveragingWindow_def positiveRates_def averageRate_def
      pairRate_def dsub_def math_round_numeral Let_def
      toDouble_2 toDouble_10 toDouble_20 toDouble_30 toDouble_60 toDouble_10000
      del: math_round.simps)

text \<open>
  Two runs in which rounding decides the result. With samples \<open>(0 ms, 2)\<close>,
  \<open>(1000 ms, 16)\<close> and \<open>(4000 ms, 30)\<close> the rates are 14 and the double nearest to
  \<open>14/3\<close>, which lies above it; their mean lies above \<open>28/3\<close>, so the quotient lies below
  the \<open>7.5\<close> of exact arithmetic and the function returns 7. With \<open>(0 ms, 49)\<close> and
  \<open>(110 ms, 50)\<close> the time difference is the double nearest to \<open>0.11\<close>, the rate lies above
  \<open>100/11\<close>, the quotient below \<open>5.5\<close>, and the function returns 5.
\<close>

lemma rounding_run_three_samples:
  "fst (computeSmoothedEta 4000
        \<lparr>m_start = 0, m_lastProgress = 16,
         m_samples = [\<lparr>s_time = 0, s_progress = 2\<rparr>, \<lparr>s_time = 1000, s_progress = 16\<rparr>]\<rparr> 30)
     = Some (Num 7)"
  by code_simp

lemma rounding_run_two_samples:
  "fst (computeSmoothedEta 110
        \<lparr>m_start = 0, m_lastProgress = 49, m_samples = [\<lparr>s_time = 0, s_progress = 49\<rparr>]\<rparr> 50)
     = Some (Num 5)"
  by code_simp

text \<open>
  Claim C1 gives the ETA as \<open>round ((100 - progress) / averageRate)\<close>. The source clamps the
  remaining percentage at 0: with one earlier sample \<open>(0 ms, 100)\<close> and a sample
  \<open>(10000 ms, 150)\<close> the average rate is 5 and the claim's formula gives \<open>-10\<close>, the
  function 0.
\<close>

theorem C1_eta_formula_counterexample:
  "fst (computeSmoothedEta 10000
          \<lparr>m_start = 0, m_lastProgress = 100, m_samples = [\<lparr>s_time = 0, s_progress = 100\<rparr>]\<rparr> 150)
     = Some (Num 0)
   \<and> math_round (ddiv (dsub (Num 100) (Num 150))
        (averageRate (etaWindow 10000
          \<lparr>m_start = 0, m_lastProgress = 100, m_samples = [\<lparr>s_time = 0, s_progress = 100\<rparr>]\<rparr>
          150)))
     = Num (- 10)"
  by code_simp

text \<open>
  Claim C1, amended in the formula only; all arithmetic is double arithmetic. The listeners
  keep every window at six samples or fewer, from the initial state on; a call appends the
  sample and keeps the last six when the progress is positive, and leaves the window alone
  otherwise; progress 0 yields no ETA; a window of one sample yields no ETA; the ETA is
  \<open>round (max 0 (100 - progress) / mean of the positive pair rates)\<close> when there is a positive
  rate and no ETA otherwise, which is the claim's \<open>round ((100 - progress) / averageRate)\<close>
  for progress up to 100; two samples with decreasing progress yield no ETA; the file
  listener, fed progress 0, 20, 40 at 10-second intervals for one file, shows 30 seconds;
  and the samples \<open>(0 ms, 2)\<close>, \<open>(1000 ms, 16)\<close>, \<open>(4000 ms, 30)\<close> yield 7 seconds, the
  samples \<open>(0 ms, 49)\<close>, \<open>(110 ms, 50)\<close> 5 seconds.
\<close>

theorem C1_eta_smoothing:
  "(windowsBounded s \<longrightarrow>
      windowsBounded (onProcessingFile now fpl s) \<and> windowsBounded (onProcessingQueue now qpl s))
   \<and> windowsBounded initialState
   \<and> m_samples (snd (computeSmoothedEta now meta p))
       = (if 0 < p then etaWindow now meta p else m_samples meta)
   \<and> length (etaWindow now meta p) \<le> 6
   \<and> fst (computeSmoothedEta now meta 0) = None
   \<and> fst (computeSmoothedEta now (meta\<lparr>m_samples := []\<rparr>) p) = None
   \<and> fst (computeSmoothedEta now meta p)
       = (if 0 < p \<and> positiveRates (etaWindow now meta p) \<noteq> []
          then Some (math_round (ddiv (max0 (dsub (Num 100) (Num p)))
                                      (averageRate (etaWindow now meta p))))
          else None)
   \<and> (0 < p \<and> p \<le> 100 \<and> positiveRates (etaWindow now meta p) \<noteq> [] \<longrightarrow>
        fst (computeSmoothedEta now meta p)
          = Some (math_round (ddiv (dsub (Num 100) (Num p))
                                   (averageRate (etaWindow now meta p)))))
   \<and> (p1 < p0 \<longrightarrow>
        fst (computeSmoothedEta t1 (meta\<lparr>m_samples := [\<lparr>s_time = t0, s_progress = p0\<rparr>]\<rparr>) p1)
          = None)
   \<and> fileProgress
        (onProcessingFile (t0 + 20000)
           \<lparr>fpp_id = i, fpp_queueId = q, fpp_name = n, fpp_progress = 40\<rparr>
          (onProcessingFile (t0 + 10000)
             \<lparr>fpp_id = i, fpp_queueId = q, fpp_name = n, fpp_progress = 20\<rparr>
            (onProcessingFile t0
               \<lparr>fpp_id = i, fpp_queueId = q, fpp_name = n, fpp_progress = 0\<rparr>
               initialState)))
       = [\<lparr>fp_id = i, fp_queueId = q, fp_name = n, fp_progress = 40,
           fp_etaSeconds = Some (Num 30)\<rparr>]
   \<and> fst (computeSmoothedEta 4000
        \<lparr>m_start = 0, m_lastProgress = 16,
         m_samples = [\<lparr>s_time = 0, s_progress = 2\<rparr>, \<lparr>s_time = 1000, s_progress = 16\<rparr>]\<rparr> 30)
       = Some (Num 7)
   \<and> fst (computeSmoothedEta 110
        \<lparr>m_start = 0, m_lastProgress = 49, m_samples = [\<lparr>s_time = 0, s_progress = 49\<rparr>]\<rparr> 50)
       = Some (Num 5)"
proof -
  have inv: "windowsBounded s \<longrightarrow>
      windowsBounded (onProcessingFile now fpl s) \<and> windowsBounded (onProcessingQueue now qpl s)"
    by (simp add: windowsBounded_file windowsBounded_queue)
  have win: "m_samples (snd (computeSmoothedEta now meta p))
       = (if 0 < p then etaWindow now meta p else m_samples meta)"
    by (simp add: computeSmoothedEta_spec)
  have len: "length (etaWindow now meta p) \<le> 6"
    using length_etaWindow[of now meta p] by (simp add: etaAveragingWindow_def)
  have zero: "fst (computeSmoothedEta now meta 0) = None"
    by (simp add: computeSmoothedEta_spec)
  have single: "fst (computeSmoothedEta now (meta\<lparr>m_samples := []\<rparr>) p) = None"
    by (simp add: computeSmoothedEta_spec etaWindow_def slice_last_def etaAveragingWindow_def
        positiveRates_single)
  have formula: "fst (computeSmoothedEta now meta p)
       = (if 0 < p \<and> positiveRates (etaWindow now meta p) \<noteq> []
          then Some (math_round (ddiv (max0 (dsub (Num 100) (Num p)))
                                      (averageRate (etaWindow now meta p))))
          else None)"
    by (simp add: computeSmoothedEta_spec)
  have upto100: "0 < p \<and> p \<le> 100 \<and> positiveRates (etaWindow now meta p) \<noteq> [] \<longrightarrow>
        fst (computeSmoothedEta now meta p)
          = Some (math_round (ddiv (dsub (Num 100) (Num p))
                                   (averageRate (etaWindow now meta p))))"
    by (simp add: computeSmoothedEta_spec remaining_upto100)
  have decreasing: "p1 < p0 \<longrightarrow>
        fst (computeSmoothedEta t1 (meta\<lparr>m_samples := [\<lparr>s_time = t0, s_progress = p0\<rparr>]\<rparr>) p1)
          = None"
    by (simp add: computeSmoothedEta_spec etaWindow_def slice_last_def etaAveragingWindow_def
        positiveRates_decreasing)
  from inv windowsBounded_initial win len zero single formula upto100 decreasing example_run
    rounding_run_three_samples rounding_run_two_samples
  show ?thesis by blast
qed

text \<open>
  The hypotheses of C1 at concrete inputs: the initial state after a file event, the
  window \<open>(10 s, 20), (20 s, 40)\<close>, and the decreasing pair \<open>(10 s, 50), (20 s, 40)\<close>.
\<close>

theorem C1_eta_smoothing_witness:
  "windowsBounded (onProcessingFile 5 \<lparr>fpp_id = ''f'', fpp_queueId = ''q'', fpp_name = ''n'', fpp_progress = 10\<rparr> initialState)
   \<and> fst (computeSmoothedEta 20000
        \<lparr>m_start = 0, m_lastProgress = 20, m_samples = [\<lparr>s_time = 10000, s_progress = 20\<rparr>]\<rparr> 40)
      = Some (Num 30)
   \<and> fst (computeSmoothedEta 20000
        \<lparr>m_start = 0, m_lastProgress = 50, m_samples = [\<lparr>s_time = 10000, s_progress = 50\<rparr>]\<rparr> 40)
      = None"
proof -
  let ?m = "\<lparr>m_start = 0, m_lastProgress = 20, m_samples = [\<lparr>s_time = 10000, s_progress = 20\<rparr>]\<rparr>"
  let ?m' = "\<lparr>m_start = 0, m_lastProgress = 50, m_samples = []\<rparr>"
  let ?fpl = "\<lparr>fpp_id = ''f'', fpp_queueId = ''q'', fpp_name = ''n'', fpp_progress = 10\<rparr>"
  have rates: "positiveRates (etaWindow 20000 ?m 40) = [Num 2]"
    by code_simp
  have avg: "averageRate (etaWindow 20000 ?m 40) = Num 2"
    by (simp add: averageRate_def rates toDouble_2)
  have a: "windowsBounded (onProcessingFile 5 ?fpl initialState)"
    using C1_eta_smoothing[where s = initialState and now = 5 and fpl = ?fpl] by blast
  have b: "fst (computeSmoothedEta 20000 ?m 40) = Some (Num 30)"
    using conjunct1[OF conjunct2[OF conjunct2[OF conjunct2[OF conjunct2[OF conjunct2[OF
      conjunct2[OF conjunct2[OF C1_eta_smoothing[where now = 20000 and meta = ?m and p = 40]]]]]]]]]
    by (simp add: rates avg dsub_def toDouble_30 toDouble_60 math_round_numeral
        del: math_round.simps)
  have c: "fst (computeSmoothedEta 20000 (?m'\<lparr>m_samples := [\<lparr>s_time = 10000, s_progress = 50\<rparr>]\<rparr>) 40) = None"
    using conjunct1[OF conjunct2[OF conjunct2[OF conjunct2[OF conjunct2[OF conjunct2[OF
      conjunct2[OF conjunct2[OF conjunct2[OF C1_eta_smoothing[where ?p1.0 = 40 and ?p0.0 = 50
        and ?t1.0 = 20000 and meta = ?m' and ?t0.0 = 10000]]]]]]]]]]
    by simp
  from a b c show ?thesis by simp
qed

subsection \<open>Notifications\<close>

lemma onProcessingStatus_ref: "statusRef (fst (onProcessingStatus e s)) = e"
  by (simp add: onProcessingStatus_def Let_def)

lemma onProcessingStatus_status: "status (fst (onProcessingStatus e s)) = e"
  by (simp add: onProcessingStatus_def Let_def)

lemma onProcessingStatus_notify: "snd (onProcessingStatus e s) = notifyOnEdge (statusRef s) e"
  by (simp add: onProcessingStatus_def notifyOnEdge_def completedNotice_def errorNotice_def Let_def)

lemma statusRun_notifications:
  "fst (statusRun s evs) = map2 notifyOnEdge (statusRef s # evs) evs"
proof (induction evs arbitrary: s)
  case Nil
  then show ?case by simp
next
  case (Cons e es)
  have "fst (statusRun s (e # es))
      = snd (onProcessingStatus e s) # fst (statusRun (fst (onProcessingStatus e s)) es)"
    by (simp add: split_beta)
  also have "\<dots> = notifyOnEdge (statusRef s) e # map2 notifyOnEdge (e # es) es"
    by (simp only: Cons.IH onProcessingStatus_notify onProcessingStatus_ref)
  finally show ?case by simp
qed

lemma statusRun_final:
  "statusRef (snd (statusRun s evs)) = last (statusRef s # evs)
   \<and> status (snd (statusRun s evs)) = last (status s # evs)"
proof (induction evs arbitrary: s)
  case Nil
  then show ?case by simp
next
  case (Cons e es)
  have "snd (statusRun s (e # es)) = snd (statusRun (fst (onProcessingStatus e s)) es)"
    by (simp add: split_beta)
  then show ?case
    using Cons.IH[of "fst (onProcessingStatus e s)"]
    by (simp add: onProcessingStatus_ref onProcessingStatus_status)
qed

lemma statusRun_repeat:
  "fst (statusRun s (evs @ [e, e])) ! Suc (length evs) = None"
proof -
  have "length (zip (statusRef s # evs @ [e, e]) (evs @ [e, e])) = length evs + 2"
    by simp
  then have "map2 notifyOnEdge (statusRef s # evs @ [e, e]) (evs @ [e, e]) ! Suc (length evs)
      = notifyOnEdge ((statusRef s # evs @ [e, e]) ! Suc (length evs)) ((evs @ [e, e]) ! Suc (length evs))"
    by simp
  also have "\<dots> = notifyOnEdge e e"
    by (simp add: nth_append)
  finally show ?thesis
    by (simp add: statusRun_notifications notifyOnEdge_def)
qed

text \<open>
  Claim C7: over every sequence of \<^verbatim>\<open>processing:status\<close> events, from any state, the
  listener calls \<^verbatim>\<open>notify\<close> at exactly the events whose status is \<^verbatim>\<open>completed\<close> or
  \<^verbatim>\<open>error\<close> and differs from the status of the event before (for the first event: from
  the reference cell, \<^verbatim>\<open>idle\<close> initially), with the message of that status, once; the
  second of two consecutive events with the same status never notifies.
\<close>

theorem C7_notification_edge_triggered:
  "fst (statusRun s evs) = map2 notifyOnEdge (statusRef s # evs) evs
   \<and> fst (statusRun initialState evs) = map2 notifyOnEdge (Idle # evs) evs
   \<and> statusRef (snd (statusRun s evs)) = last (statusRef s # evs)
   \<and> fst (statusRun s (evs @ [e, e])) ! Suc (length evs) = None"
  using statusRun_notifications[of s evs] statusRun_notifications[of initialState evs]
    statusRun_final[of s evs] statusRun_repeat[of s evs e]
  by (simp add: initialState_def)

subsection \<open>Frames of the queue and file listeners\<close>

lemma mapQueue_unmatched:
  "qp_id pl \<notin> qf_id ` set q \<Longrightarrow> mapQueue now pl q r = (q, r)"
  by (induction q arbitrary: r) auto

lemma onProcessingQueue_unmatched:
  "qp_id pl \<notin> qf_id ` set (queue s) \<Longrightarrow> onProcessingQueue now pl s = s"
  by (simp add: onProcessingQueue_def mapQueue_unmatched)

lemma find_fp_None:
  "find (\<lambda>item. fp_id item = k) xs = None \<longleftrightarrow> k \<notin> fp_id ` set xs"
  by (auto simp: find_None_iff)

lemma onProcessingFile_unknown:
  assumes "fpp_id pl \<notin> fp_id ` set (fileProgress s)"
  shows "\<exists>eta. fileProgress (onProcessingFile now pl s) = fileProgress s @ [fileEntry pl eta]"
proof -
  from assms have "find (\<lambda>item. fp_id item = fpp_id pl) (fileProgress s) = None"
    by (simp add: find_fp_None)
  then show ?thesis
    by (simp add: onProcessingFile_def Let_def split_beta fileEntry_def)
qed

lemma onProcessingFile_known:
  assumes "fpp_id pl \<in> fp_id ` set (fileProgress s)"
  shows "\<exists>eta. fileProgress (onProcessingFile now pl s)
           = map (\<lambda>item. if fp_id item = fpp_id pl then fileEntry pl eta else item) (fileProgress s)"
proof -
  from assms obtain e where "find (\<lambda>item. fp_id item = fpp_id pl) (fileProgress s) = Some e"
    using find_fp_None[of "fpp_id pl" "fileProgress s"] by (cases "find (\<lambda>item. fp_id item = fpp_id pl) (fileProgress s)") auto
  then show ?thesis
    by (simp add: onProcessingFile_def Let_def split_beta fileEntry_def)
qed

lemma map_replace_ids:
  "fp_id e = k \<Longrightarrow> map fp_id (map (\<lambda>item. if fp_id item = k then e else item) xs) = map fp_id xs"
  by (induction xs) auto

lemma onProcessingFile_distinct:
  assumes "distinct (map fp_id (fileProgress s))"
  shows "distinct (map fp_id (fileProgress (onProcessingFile now pl s)))"
proof (cases "fpp_id pl \<in> fp_id ` set (fileProgress s)")
  case True
  from onProcessingFile_known[OF True, of now] obtain eta where
    "fileProgress (onProcessingFile now pl s)
       = map (\<lambda>item. if fp_id item = fpp_id pl then fileEntry pl eta else item) (fileProgress s)"
    by blast
  moreover have "fp_id (fileEntry pl eta) = fpp_id pl"
    by (simp add: fileEntry_def)
  ultimately show ?thesis using assms
    by (simp only: map_replace_ids)
next
  case False
  from onProcessingFile_unknown[OF False, of now] obtain eta where
    "fileProgress (onProcessingFile now pl s) = fileProgress s @ [fileEntry pl eta]"
    by blast
  then show ?thesis using assms False by (auto simp: fileEntry_def)
qed

text \<open>
  Claim C10: a \<^verbatim>\<open>processing:queue\<close> event whose id is no queue item's leaves the whole
  state as it is; a \<^verbatim>\<open>processing:file\<close> event with an unknown id appends one entry made
  from the payload; one with a known id keeps the length of the list, replaces the entries
  with that id by the entry made from the payload and leaves every other entry as it is;
  and ids that are pairwise distinct stay so, so that the entry replaced is a single one.
\<close>

theorem C10_queue_and_file_frames:
  "(qp_id qpl \<notin> qf_id ` set (queue s) \<longrightarrow> onProcessingQueue now qpl s = s)
   \<and> (fpp_id fpl \<notin> fp_id ` set (fileProgress s) \<longrightarrow>
        (\<exists>eta. fileProgress (onProcessingFile now fpl s) = fileProgress s @ [fileEntry fpl eta]))
   \<and> (fpp_id fpl \<in> fp_id ` set (fileProgress s) \<longrightarrow>
        (\<exists>eta. length (fileProgress (onProcessingFile now fpl s)) = length (fileProgress s)
           \<and> (\<forall>i < length (fileProgress s).
                 fileProgress (onProcessingFile now fpl s) ! i
                   = (if fp_id (fileProgress s ! i) = fpp_id fpl then fileEntry fpl eta
                      else fileProgress s ! i))))
   \<and> (distinct (map fp_id (fileProgress s)) \<longrightarrow>
        distinct (map fp_id (fileProgress (onProcessingFile now fpl s))))"
proof (intro conjI impI)
  assume "qp_id qpl \<notin> qf_id ` set (queue s)"
  then show "onProcessingQueue now qpl s = s" by (rule onProcessingQueue_unmatched)
next
  assume "fpp_id fpl \<notin> fp_id ` set (fileProgress s)"
  then show "\<exists>eta. fileProgress (onProcessingFile now fpl s) = fileProgress s @ [fileEntry fpl eta]"
    by (rule onProcessingFile_unknown)
next
  assume "fpp_id fpl \<in> fp_id ` set (fileProgress s)"
  from onProcessingFile_known[OF this, of now] obtain eta where
    eq: "fileProgress (onProcessingFile now fpl s)
       = map (\<lambda>item. if fp_id item = fpp_id fpl then fileEntry fpl eta else item) (fileProgress s)"
    by blast
  show "\<exists>eta. length (fileProgress (onProcessingFile now fpl s)) = length (fileProgress s)
           \<and> (\<forall>i < length (fileProgress s).
                 fileProgress (onProcessingFile now fpl s) ! i
                   = (if fp_id (fileProgress s ! i) = fpp_id fpl then fileEntry fpl eta
                      else fileProgress s ! i))"
    by (rule exI[of _ eta]) (simp add: eq)
next
  assume "distinct (map fp_id (fileProgress s))"
  then show "distinct (map fp_id (fileProgress (onProcessingFile now fpl s)))"
    by (rule onProcessingFile_distinct)
qed

lemma witnessFiles_ids: "map fp_id (fileProgress witnessFiles) = [''f1'']"
  by (simp add: witnessFiles_def onProcessingFile_def witnessFilePayload_def initialState_def
      Let_def split_beta)

text \<open>
  C10 at concrete states: a queue event for an id that is not queued; a file event for a
  new id and one for the id already listed.
\<close>

theorem C10_queue_and_file_frames_witness:
  "onProcessingQueue 5 strayQueuePayload queuedUnselected = queuedUnselected
   \<and> length (fileProgress (onProcessingFile 5 (witnessFilePayload ''f2'' 20) witnessFiles)) = 2
   \<and> length (fileProgress (onProcessingFile 5 (witnessFilePayload ''f1'' 20) witnessFiles)) = 1
   \<and> map fp_id (fileProgress (onProcessingFile 5 (witnessFilePayload ''f1'' 20) witnessFiles))
       = [''f1'']
   \<and> distinct (map fp_id (fileProgress (onProcessingFile 5 (witnessFilePayload ''f2'' 20) witnessFiles)))"
proof -
  have len: "length (fileProgress witnessFiles) = 1"
    using witnessFiles_ids by (metis length_map list.size(3,4) One_nat_def add_0)
  have ids: "fp_id ` set (fileProgress witnessFiles) = {''f1''}"
    using witnessFiles_ids by (metis list.set(1,2) set_map)
  have h1: "qp_id strayQueuePayload \<notin> qf_id ` set (queue queuedUnselected)"
    by (simp add: strayQueuePayload_def queuedUnselected_def witnessItem_def)
  have h2: "fpp_id (witnessFilePayload ''f2'' 20) \<notin> fp_id ` set (fileProgress witnessFiles)"
    unfolding ids by (simp add: witnessFilePayload_def)
  have h3: "fpp_id (witnessFilePayload ''f1'' 20) \<in> fp_id ` set (fileProgress witnessFiles)"
    unfolding ids by (simp add: witnessFilePayload_def)
  have h4: "distinct (map fp_id (fileProgress witnessFiles))"
    unfolding witnessFiles_ids by simp
  have a: "onProcessingQueue 5 strayQueuePayload queuedUnselected = queuedUnselected"
    using C10_queue_and_file_frames[where s = queuedUnselected and qpl = strayQueuePayload and now = 5]
      h1 by blast
  from C10_queue_and_file_frames[where s = witnessFiles and fpl = "witnessFilePayload ''f2'' 20" and now = 5]
    h2 obtain eta2 where
    "fileProgress (onProcessingFile 5 (witnessFilePayload ''f2'' 20) witnessFiles)
       = fileProgress witnessFiles @ [fileEntry (witnessFilePayload ''f2'' 20) eta2]"
    by blast
  then have b: "length (fileProgress (onProcessingFile 5 (witnessFilePayload ''f2'' 20) witnessFiles)) = 2"
    using len by simp
  note k = C10_queue_and_file_frames[where s = witnessFiles and fpl = "witnessFilePayload ''f1'' 20" and now = 5]
  from k h3 obtain eta where
    c: "length (fileProgress (onProcessingFile 5 (witnessFilePayload ''f1'' 20) witnessFiles))
          = length (fileProgress witnessFiles)"
    and n: "\<forall>i < length (fileProgress witnessFiles).
        fileProgress (onProcessingFile 5 (witnessFilePayload ''f1'' 20) witnessFiles) ! i
          = (if fp_id (fileProgress witnessFiles ! i) = fpp_id (witnessFilePayload ''f1'' 20)
             then fileEntry (witnessFilePayload ''f1'' 20) eta else fileProgress witnessFiles ! i)"
    by blast
  have id0: "fp_id (fileProgress witnessFiles ! 0) = ''f1''"
    using witnessFiles_ids len by (metis nth_map nth_Cons_0 zero_less_one)
  have e0: "fileProgress (onProcessingFile 5 (witnessFilePayload ''f1'' 20) witnessFiles) ! 0
      = fileEntry (witnessFilePayload ''f1'' 20) eta"
    using n len id0 by (simp add: witnessFilePayload_def)
  have c': "map fp_id (fileProgress (onProcessingFile 5 (witnessFilePayload ''f1'' 20) witnessFiles))
       = [''f1'']"
  proof (rule nth_equalityI)
    show "length (map fp_id (fileProgress (onProcessingFile 5 (witnessFilePayload ''f1'' 20) witnessFiles)))
        = length [''f1'']"
      using c len by simp
  next
    fix i
    assume "i < length (map fp_id (fileProgress (onProcessingFile 5 (witnessFilePayload ''f1'' 20) witnessFiles)))"
    then have "i = 0" using c len by simp
    then show "map fp_id (fileProgress (onProcessingFile 5 (witnessFilePayload ''f1'' 20) witnessFiles)) ! i
        = [''f1''] ! i"
      using c len e0 by (simp add: fileEntry_def witnessFilePayload_def)
  qed
  have d: "distinct (map fp_id (fileProgress (onProcessingFile 5 (witnessFilePayload ''f2'' 20) witnessFiles)))"
    using C10_queue_and_file_frames[where s = witnessFiles and fpl = "witnessFilePayload ''f2'' 20" and now = 5]
      h4 by blast
  from a b c c' d len show ?thesis by simp
qed

subsection \<open>Mode derivation\<close>

lemma folder_paths:
  "inlinePathKind hdrFolder = Folder" "hdrFolder \<noteq> []"
  "inlinePathKind dvFolder = Folder" "dvFolder \<noteq> []"
  by (simp_all add: inlinePathKind_def endsWith_single hdrFolder_def dvFolder_def slash_def)

lemma foldersTyped_fields:
  "hdrPath (config foldersTyped) = hdrFolder"
  "hdr10plusPath (config foldersTyped) = []"
  "dvPath (config foldersTyped) = dvFolder"
  "outputPath (config foldersTyped) = []"
  "pk_hdr (pathKinds foldersTyped) = Folder"
  "pk_hdr10plus (pathKinds foldersTyped) = Unknown"
  "pk_dv (pathKinds foldersTyped) = Folder"
  "queue foldersTyped = []"
  "selectedQueueIds foldersTyped = {}"
  "status foldersTyped = Idle"
  "logs foldersTyped = []"
  "defaultOutput (toolPaths foldersTyped) = ''DV.HDR''"
  by (simp_all add: foldersTyped_def onChangeDv_def onChangeHdr_def initialState_def
      initialConfig_def defaultToolPaths_def folder_paths)

lemma foldersTyped_mode: "derivedMode foldersTyped = Batch"
  by (simp add: derivedMode_def derivedHdrKind_def foldersTyped_fields folder_paths)

lemma foldersTypedHdr10plus_fields:
  "hdrPath (config foldersTypedHdr10plus) = []"
  "pk_hdr (pathKinds foldersTypedHdr10plus) = Unknown"
  "pk_hdr10plus (pathKinds foldersTypedHdr10plus) = Folder"
  "pk_dv (pathKinds foldersTypedHdr10plus) = Folder"
  "queue foldersTypedHdr10plus = []"
  by (simp_all add: foldersTypedHdr10plus_def onChangeDv_def onChangeHdr10plus_def
      initialState_def initialConfig_def folder_paths)

lemma foldersQueued_fields:
  "hdrPath (config foldersQueued) = []"
  "hdr10plusPath (config foldersQueued) = []"
  "dvPath (config foldersQueued) = []"
  "pk_hdr (pathKinds foldersQueued) = Folder"
  "pk_hdr10plus (pathKinds foldersQueued) = Unknown"
  "pk_dv (pathKinds foldersQueued) = Folder"
  "map qf_id (queue foldersQueued) = [''a'']"
  "map qf_outputFile (queue foldersQueued) = [''DV.HDR'']"
  "selectedQueueIds foldersQueued = {''a''}"
  "status foldersQueued = Idle"
  "logs foldersQueued
     = [\<lparr>log_id = ''log1'', log_timestamp = 0, log_type = Info,
         log_message = ''Added to queue: DV.HDR''\<rparr>]"
  by (simp_all add: foldersQueued_def addToQueue_def Let_def addLog_def derivedHdrPath_def
      or_str_def foldersTyped_fields foldersTyped_mode folder_paths)

lemma foldersCleared_fields:
  "hdrPath (config foldersCleared) = []"
  "pk_hdr (pathKinds foldersCleared) = Folder"
  "pk_hdr10plus (pathKinds foldersCleared) = Unknown"
  "pk_dv (pathKinds foldersCleared) = Folder"
  "queue foldersCleared = []"
  by (simp_all add: foldersCleared_def handleClear_def foldersQueued_fields)

lemma foldersTyped2_fields:
  "hdrPath2 (config2 foldersTyped2) = hdrFolder"
  "dvPath2 (config2 foldersTyped2) = dvFolder"
  "outputPath2 (config2 foldersTyped2) = []"
  "pk2_hdr (pathKinds2 foldersTyped2) = Folder"
  "pk2_dv (pathKinds2 foldersTyped2) = Folder"
  "queue2 foldersTyped2 = []"
  "selectedQueueIds2 foldersTyped2 = {}"
  "status2 foldersTyped2 = Idle"
  "logs2 foldersTyped2 = []"
  "tp2_defaultOutput (toolPaths2 foldersTyped2) = ''DV.HDR''"
  by (simp_all add: foldersTyped2_def onChangeDv2_def onChangeHdr2_def initialState2_def
      defaultToolPaths2_def folder_paths)

lemma foldersTyped2_mode: "derivedMode2 foldersTyped2 = Batch"
  by (simp add: derivedMode2_def foldersTyped2_fields)

lemma foldersQueued2_fields:
  "hdrPath2 (config2 foldersQueued2) = []"
  "dvPath2 (config2 foldersQueued2) = []"
  "pk2_hdr (pathKinds2 foldersQueued2) = Folder"
  "pk2_dv (pathKinds2 foldersQueued2) = Folder"
  "map qf_id (queue2 foldersQueued2) = [''a'']"
  "selectedQueueIds2 foldersQueued2 = {''a''}"
  "status2 foldersQueued2 = Idle"
  "logs2 foldersQueued2
     = [\<lparr>log_id = ''log1'', log_timestamp = 0, log_type = Info,
         log_message = ''Added to queue: DV.HDR''\<rparr>]"
  by (simp_all add: foldersQueued2_def addToQueue2_def Let_def addLog2_def or_str_def
      foldersTyped2_fields foldersTyped2_mode folder_paths)

lemma foldersCleared2_fields:
  "pk2_hdr (pathKinds2 foldersCleared2) = Folder"
  "pk2_dv (pathKinds2 foldersCleared2) = Folder"
  "queue2 foldersCleared2 = []"
  by (simp_all add: foldersCleared2_def handleClear2_def foldersQueued2_fields)

text \<open>
  Claim C4 says that the two derivations agree on every state with an empty queue. They do
  not. A folder is typed into the HDR input and one into the DV input; both revisions are
  then in batch mode and show the Add to Queue button, enabled; the pair is added and the
  queue cleared, which both revisions allow. Both queues are empty and the stored HDR and
  DV kinds are folders in both revisions, but the HDR path is empty now, so the queue-aware
  derivation reads the kind of the HDR10+ input, which was never set, and yields single
  mode, while the derivation by path kinds yields batch mode.
\<close>

theorem C4_cleared_queue_counterexample:
  "addToQueueClickable foldersTyped \<and> addToQueueClickable2 foldersTyped2
   \<and> \<not> isProcessing foldersQueued \<and> \<not> isProcessing2 foldersQueued2
   \<and> queue foldersCleared = [] \<and> queue2 foldersCleared2 = []
   \<and> pk_hdr (pathKinds foldersCleared) = Folder \<and> pk_dv (pathKinds foldersCleared) = Folder
   \<and> pk2_hdr (pathKinds2 foldersCleared2) = Folder \<and> pk2_dv (pathKinds2 foldersCleared2) = Folder
   \<and> derivedMode foldersCleared = Single
   \<and> derivedMode2 foldersCleared2 = Batch"
  by (simp add: addToQueueClickable_def addToQueueClickable2_def isProcessing_def
      isProcessing2_def derivedHdrPath_def or_str_def derivedMode_def derivedHdrKind_def
      derivedMode2_def foldersTyped_fields foldersTyped2_fields foldersQueued_fields
      foldersQueued2_fields foldersCleared_fields foldersCleared2_fields folder_paths)

text \<open>
  Claim C4, amended. With an empty queue the queue-aware derivation yields batch mode
  exactly when the DV kind is a folder and the kind of the HDR-family source in use is a
  folder, and single mode otherwise; that kind is the stored kind of the HDR input when the
  HDR path is not empty and the stored kind of the HDR10+ input when it is empty. The
  derivation by path kinds yields batch mode exactly when its HDR kind and its DV kind are
  both folders, and single mode otherwise. The two agree on a state with an empty queue
  when the HDR kind of the one is that kind of the other and the DV kinds are the same; in
  particular they agree right after a non-empty path is entered into the HDR input or into
  the HDR10+ input, and any path into the DV input, with an empty queue. With a non-empty
  queue the queue-aware derivation yields batch mode whatever the kinds are, and the
  derivation by path kinds does not depend on the queue.
\<close>

theorem C4_mode_derivation_variants:
  "(queue s = [] \<longrightarrow>
      (derivedMode s = Batch \<longleftrightarrow>
         (if hdrPath (config s) \<noteq> [] then pk_hdr (pathKinds s) else pk_hdr10plus (pathKinds s))
           = Folder
         \<and> pk_dv (pathKinds s) = Folder)
      \<and> (derivedMode s = Single \<longleftrightarrow>
         \<not> ((if hdrPath (config s) \<noteq> [] then pk_hdr (pathKinds s) else pk_hdr10plus (pathKinds s))
              = Folder
            \<and> pk_dv (pathKinds s) = Folder)))
   \<and> (derivedMode2 t = Batch \<longleftrightarrow> pk2_hdr (pathKinds2 t) = Folder \<and> pk2_dv (pathKinds2 t) = Folder)
   \<and> (derivedMode2 t = Single \<longleftrightarrow> \<not> (pk2_hdr (pathKinds2 t) = Folder \<and> pk2_dv (pathKinds2 t) = Folder))
   \<and> (queue s = []
       \<and> pk2_hdr (pathKinds2 t)
           = (if hdrPath (config s) \<noteq> [] then pk_hdr (pathKinds s) else pk_hdr10plus (pathKinds s))
       \<and> pk2_dv (pathKinds2 t) = pk_dv (pathKinds s) \<longrightarrow>
       derivedMode s = derivedMode2 t)
   \<and> (queue s = [] \<and> v \<noteq> [] \<longrightarrow>
       derivedMode (onChangeDv w (onChangeHdr v s)) = derivedMode2 (onChangeDv2 w (onChangeHdr2 v t))
       \<and> derivedMode (onChangeDv w (onChangeHdr10plus v s))
           = derivedMode2 (onChangeDv2 w (onChangeHdr2 v t)))
   \<and> (queue s \<noteq> [] \<longrightarrow> derivedMode s = Batch)
   \<and> derivedMode2 (t\<lparr>queue2 := q\<rparr>) = derivedMode2 t"
proof -
  have kinds: "queue s = [] \<longrightarrow>
      (derivedMode s = Batch \<longleftrightarrow>
         (if hdrPath (config s) \<noteq> [] then pk_hdr (pathKinds s) else pk_hdr10plus (pathKinds s))
           = Folder
         \<and> pk_dv (pathKinds s) = Folder)
      \<and> (derivedMode s = Single \<longleftrightarrow>
         \<not> ((if hdrPath (config s) \<noteq> [] then pk_hdr (pathKinds s) else pk_hdr10plus (pathKinds s))
              = Folder
            \<and> pk_dv (pathKinds s) = Folder))"
    by (simp add: derivedMode_def derivedHdrKind_def)
  have kinds2: "(derivedMode2 t = Batch \<longleftrightarrow> pk2_hdr (pathKinds2 t) = Folder \<and> pk2_dv (pathKinds2 t) = Folder)
      \<and> (derivedMode2 t = Single \<longleftrightarrow> \<not> (pk2_hdr (pathKinds2 t) = Folder \<and> pk2_dv (pathKinds2 t) = Folder))"
    by (simp add: derivedMode2_def)
  have agree: "queue s = []
       \<and> pk2_hdr (pathKinds2 t)
           = (if hdrPath (config s) \<noteq> [] then pk_hdr (pathKinds s) else pk_hdr10plus (pathKinds s))
       \<and> pk2_dv (pathKinds2 t) = pk_dv (pathKinds s) \<longrightarrow>
       derivedMode s = derivedMode2 t"
    by (simp add: derivedMode_def derivedHdrKind_def derivedMode2_def)
  have typed: "queue s = [] \<and> v \<noteq> [] \<longrightarrow>
       derivedMode (onChangeDv w (onChangeHdr v s)) = derivedMode2 (onChangeDv2 w (onChangeHdr2 v t))
       \<and> derivedMode (onChangeDv w (onChangeHdr10plus v s))
           = derivedMode2 (onChangeDv2 w (onChangeHdr2 v t))"
    by (simp add: derivedMode_def derivedHdrKind_def derivedMode2_def onChangeDv_def
        onChangeHdr_def onChangeHdr10plus_def onChangeDv2_def onChangeHdr2_def)
  have forced: "queue s \<noteq> [] \<longrightarrow> derivedMode s = Batch"
    by (simp add: derivedMode_def)
  have ignores: "derivedMode2 (t\<lparr>queue2 := q\<rparr>) = derivedMode2 t"
    by (simp add: derivedMode2_def)
  from kinds kinds2 agree typed forced ignores show ?thesis by blast
qed

text \<open>
  C4 at concrete states: the two folders typed into the HDR and DV inputs, where both
  derivations yield batch mode; the folder typed into the HDR10+ input instead; and the
  state after the pair is queued, where the paths are empty and the populated queue forces
  batch mode.
\<close>

theorem C4_mode_derivation_variants_witness:
  "derivedMode foldersTyped = Batch
   \<and> derivedMode foldersTyped = derivedMode2 foldersTyped2
   \<and> derivedMode foldersTypedHdr10plus = derivedMode2 foldersTyped2
   \<and> derivedMode foldersQueued = Batch"
proof -
  have a: "derivedMode foldersTyped = Batch"
    using conjunct1[OF C4_mode_derivation_variants[where s = foldersTyped]]
    by (simp add: foldersTyped_fields folder_paths)
  have b: "derivedMode foldersTyped = derivedMode2 foldersTyped2"
    using conjunct1[OF conjunct2[OF conjunct2[OF conjunct2[OF conjunct2[OF
      C4_mode_derivation_variants[where s = initialState and t = initialState2
        and v = hdrFolder and w = dvFolder]]]]]]
    by (simp add: foldersTyped_def foldersTyped2_def folder_paths initialState_def)
  have c: "derivedMode foldersTypedHdr10plus = derivedMode2 foldersTyped2"
    using conjunct1[OF conjunct2[OF conjunct2[OF conjunct2[OF
      C4_mode_derivation_variants[where s = foldersTypedHdr10plus and t = foldersTyped2]]]]]
    by (simp add: foldersTypedHdr10plus_fields foldersTyped2_fields)
  have d: "derivedMode foldersQueued = Batch"
    using conjunct1[OF conjunct2[OF conjunct2[OF conjunct2[OF conjunct2[OF conjunct2[OF
      C4_mode_derivation_variants[where s = foldersQueued]]]]]]] foldersQueued_fields(7)
    by auto
  from a b c d show ?thesis by simp
qed

subsection \<open>Adding to the queue\<close>

lemma addToQueue_refused:
  "derivedHdrPath s = [] \<or> dvPath (config s) = [] \<Longrightarrow> addToQueue fileId logId now s = s"
  by (auto simp: addToQueue_def)

lemma addToQueue_queue:
  assumes "derivedHdrPath s \<noteq> []" "dvPath (config s) \<noteq> []"
  shows "\<exists>e. queue (addToQueue fileId logId now s) = queue s @ [e]
           \<and> qf_id e = fileId \<and> qf_status e = FPending \<and> qf_progress e = 0
           \<and> qf_hdrPath e = derivedHdrPath s \<and> qf_dvPath e = dvPath (config s)"
  using assms by (simp add: addToQueue_def Let_def addLog_def)

lemma addToQueue_rest:
  assumes "derivedHdrPath s \<noteq> []" "dvPath (config s) \<noteq> []"
  shows "selectedQueueIds (addToQueue fileId logId now s) = insert fileId (selectedQueueIds s)
    \<and> config (addToQueue fileId logId now s)
        = (config s)\<lparr>hdrPath := [], hdr10plusPath := [], dvPath := [], outputPath := []\<rparr>
    \<and> toolPaths (addToQueue fileId logId now s) = toolPaths s
    \<and> pathKinds (addToQueue fileId logId now s) = pathKinds s"
  using assms by (simp add: addToQueue_def Let_def addLog_def)

text \<open>
  Claim C9: \<^verbatim>\<open>addToQueue\<close> leaves the state as it is when the resolved HDR-family path
  or the DV path is empty. Otherwise it appends exactly one entry at the end of the queue,
  pending, with progress 0, the fresh id and the two source paths; adds that id to the
  selection; empties the HDR, HDR10+, DV and output paths; and leaves the concurrency
  limit, the temp-file retention flag and the tool paths as they were.
\<close>

theorem C9_addToQueue:
  "(derivedHdrPath s = [] \<or> dvPath (config s) = [] \<longrightarrow> addToQueue fileId logId now s = s)
   \<and> (derivedHdrPath s \<noteq> [] \<and> dvPath (config s) \<noteq> [] \<longrightarrow>
        (\<exists>e. queue (addToQueue fileId logId now s) = queue s @ [e]
           \<and> qf_id e = fileId \<and> qf_status e = FPending \<and> qf_progress e = 0
           \<and> qf_hdrPath e = derivedHdrPath s \<and> qf_dvPath e = dvPath (config s))
        \<and> selectedQueueIds (addToQueue fileId logId now s) = insert fileId (selectedQueueIds s)
        \<and> hdrPath (config (addToQueue fileId logId now s)) = []
        \<and> hdr10plusPath (config (addToQueue fileId logId now s)) = []
        \<and> dvPath (config (addToQueue fileId logId now s)) = []
        \<and> outputPath (config (addToQueue fileId logId now s)) = []
        \<and> parallelTasks (config (addToQueue fileId logId now s)) = parallelTasks (config s)
        \<and> keepTempFiles (config (addToQueue fileId logId now s)) = keepTempFiles (config s)
        \<and> toolPaths (addToQueue fileId logId now s) = toolPaths s)"
proof (intro conjI impI)
  assume "derivedHdrPath s = [] \<or> dvPath (config s) = []"
  then show "addToQueue fileId logId now s = s" by (rule addToQueue_refused)
next
  assume a: "derivedHdrPath s \<noteq> [] \<and> dvPath (config s) \<noteq> []"
  then show "\<exists>e. queue (addToQueue fileId logId now s) = queue s @ [e]
           \<and> qf_id e = fileId \<and> qf_status e = FPending \<and> qf_progress e = 0
           \<and> qf_hdrPath e = derivedHdrPath s \<and> qf_dvPath e = dvPath (config s)"
    using addToQueue_queue[of s fileId logId now] by blast
next
  assume a: "derivedHdrPath s \<noteq> [] \<and> dvPath (config s) \<noteq> []"
  then show "selectedQueueIds (addToQueue fileId logId now s) = insert fileId (selectedQueueIds s)"
    using addToQueue_rest[of s fileId logId now] by blast
next
  assume a: "derivedHdrPath s \<noteq> [] \<and> dvPath (config s) \<noteq> []"
  then show "hdrPath (config (addToQueue fileId logId now s)) = []"
    using addToQueue_rest[of s fileId logId now] by simp
next
  assume a: "derivedHdrPath s \<noteq> [] \<and> dvPath (config s) \<noteq> []"
  then show "hdr10plusPath (config (addToQueue fileId logId now s)) = []"
    using addToQueue_rest[of s fileId logId now] by simp
next
  assume a: "derivedHdrPath s \<noteq> [] \<and> dvPath (config s) \<noteq> []"
  then show "dvPath (config (addToQueue fileId logId now s)) = []"
    using addToQueue_rest[of s fileId logId now] by simp
next
  assume a: "derivedHdrPath s \<noteq> [] \<and> dvPath (config s) \<noteq> []"
  then show "outputPath (config (addToQueue fileId logId now s)) = []"
    using addToQueue_rest[of s fileId logId now] by simp
next
  assume a: "derivedHdrPath s \<noteq> [] \<and> dvPath (config s) \<noteq> []"
  then show "parallelTasks (config (addToQueue fileId logId now s)) = parallelTasks (config s)"
    using addToQueue_rest[of s fileId logId now] by simp
next
  assume a: "derivedHdrPath s \<noteq> [] \<and> dvPath (config s) \<noteq> []"
  then show "keepTempFiles (config (addToQueue fileId logId now s)) = keepTempFiles (config s)"
    using addToQueue_rest[of s fileId logId now] by simp
next
  assume a: "derivedHdrPath s \<noteq> [] \<and> dvPath (config s) \<noteq> []"
  then show "toolPaths (addToQueue fileId logId now s) = toolPaths s"
    using addToQueue_rest[of s fileId logId now] by blast
qed

text \<open>
  C9 at concrete states: with the HDR path alone nothing changes; with an HDR10+ path and
  a DV path one entry is queued and selected.
\<close>

theorem C9_addToQueue_witness:
  "addToQueue ''id1'' ''log1'' 0 witnessHdrOnly = witnessHdrOnly
   \<and> length (queue (addToQueue ''id1'' ''log1'' 0 witnessBothPaths)) = 1
   \<and> selectedQueueIds (addToQueue ''id1'' ''log1'' 0 witnessBothPaths) = {''id1''}
   \<and> parallelTasks (config (addToQueue ''id1'' ''log1'' 0 witnessBothPaths)) = 4"
proof -
  have h0: "derivedHdrPath witnessHdrOnly = [] \<or> dvPath (config witnessHdrOnly) = []"
    by (simp add: witnessHdrOnly_def onChangeHdr_def initialState_def initialConfig_def)
  have h1: "derivedHdrPath witnessBothPaths \<noteq> [] \<and> dvPath (config witnessBothPaths) \<noteq> []"
    by (simp add: witnessBothPaths_def derivedHdrPath_def or_str_def onChangeDv_def
        onChangeHdr10plus_def)
  have q: "queue witnessBothPaths = []" "selectedQueueIds witnessBothPaths = {}"
    "parallelTasks (config witnessBothPaths) = 4"
    by (simp_all add: witnessBothPaths_def onChangeDv_def onChangeHdr10plus_def
        initialState_def initialConfig_def)
  have a: "addToQueue ''id1'' ''log1'' 0 witnessHdrOnly = witnessHdrOnly"
    by (rule conjunct1[OF C9_addToQueue, THEN mp, OF h0])
  note r = conjunct2[OF C9_addToQueue, THEN mp, OF h1, of "''id1''" "''log1''" 0]
  from r obtain e where e: "queue (addToQueue ''id1'' ''log1'' 0 witnessBothPaths)
      = queue witnessBothPaths @ [e]"
    by (elim conjE exE)
  have b: "length (queue (addToQueue ''id1'' ''log1'' 0 witnessBothPaths)) = 1"
    by (simp only: e q) simp
  from r have c: "selectedQueueIds (addToQueue ''id1'' ''log1'' 0 witnessBothPaths)
      = insert ''id1'' (selectedQueueIds witnessBothPaths)"
    by (elim conjE)
  from r have d: "parallelTasks (config (addToQueue ''id1'' ''log1'' 0 witnessBothPaths))
      = parallelTasks (config witnessBothPaths)"
    by (elim conjE)
  show ?thesis
    by (intro conjI) (simp_all only: a b c d q)
qed

subsection \<open>Submission\<close>









text \<open>
  The handler of the revision with HDR10+ support has a branch for an empty selection, which
  sends the whole queue. The Start button is disabled there, so no press reaches it.
\<close>

lemma handleStart_unselected:
  assumes "queue s \<noteq> []" "selectedQueueIds s = {}" "tauri"
  shows "\<not> startClickable s
         \<and> (\<exists>req. snd (handleStart tauri pf logId now s) = Some (Invoke_start_processing req)
                \<and> rq_queue req = queue s)"
  using assms
  by (simp add: handleStart_def Let_def derivedMode_def startClickable_def startDisabled_def)



subsection \<open>Exclusive HDR and HDR10+ paths\<close>

lemma inv_same:
  "config s' = config s \<Longrightarrow> presets s' = presets s \<Longrightarrow> pathsInvariant s \<Longrightarrow> pathsInvariant s'"
  by (simp add: pathsInvariant_def presetsExclusive_def)

lemma inv_config:
  "exclusivePaths (config s') \<Longrightarrow> presets s' = presets s \<Longrightarrow> pathsInvariant s
     \<Longrightarrow> pathsInvariant s'"
  by (simp add: pathsInvariant_def presetsExclusive_def)

lemma inv_onChange:
  assumes "pathsInvariant s"
  shows "pathsInvariant (onChangeHdr v s)" "pathsInvariant (onChangeDv v s)"
    "pathsInvariant (onChangeHdr10plus v s)" "pathsInvariant (onChangeOutput v s)"
  using assms
  by (simp_all add: pathsInvariant_def presetsExclusive_def exclusivePaths_def onChangeHdr_def
      onChangeDv_def onChangeHdr10plus_def onChangeOutput_def)

lemma inv_assignBrowsed:
  assumes "pathsInvariant s"
  shows "pathsInvariant (assignBrowsed target v kind s)"
  using assms
  by (simp add: pathsInvariant_def presetsExclusive_def exclusivePaths_def assignBrowsed_def)

lemma inv_browseFile:
  assumes "pathsInvariant s"
  shows "pathsInvariant (browseFile tauri target answer s)"
proof (cases answer)
  case None
  then show ?thesis using assms by (simp add: browseFile_def)
next
  case (Some v)
  have out: "pathsInvariant (s\<lparr>config := (config s)\<lparr>outputPath := v\<rparr>,
      pathKinds := (pathKinds s)\<lparr>pk_output := File\<rparr>\<rparr>)"
    using assms by (simp add: pathsInvariant_def presetsExclusive_def exclusivePaths_def)
  show ?thesis
    using Some assms out inv_assignBrowsed[OF assms, of target v File]
    by (simp add: browseFile_def)
qed

lemma inv_browseFolder:
  assumes "pathsInvariant s"
  shows "pathsInvariant (browseFolder tauri target answer s)"
proof (cases answer)
  case None
  then show ?thesis using assms by (simp add: browseFolder_def)
next
  case (Some v)
  show ?thesis
    using Some assms inv_assignBrowsed[OF assms, of target v Folder]
    by (simp add: browseFolder_def)
qed

lemma handleDropAssign_cases:
  "config (handleDropAssign path isFolder name s) = (config s)\<lparr>hdr10plusPath := path, hdrPath := []\<rparr>
   \<or> config (handleDropAssign path isFolder name s) = (config s)\<lparr>dvPath := path\<rparr>
   \<or> config (handleDropAssign path isFolder name s) = (config s)\<lparr>hdrPath := path, hdr10plusPath := []\<rparr>
   \<or> handleDropAssign path isFolder name s = s"
  by (simp add: handleDropAssign_def Let_def)

lemma handleDropAssign_presets:
  "presets (handleDropAssign path isFolder name s) = presets s"
  by (simp add: handleDropAssign_def Let_def)

lemma inv_handleDropAssign:
  assumes "pathsInvariant s"
  shows "pathsInvariant (handleDropAssign path isFolder name s)"
proof -
  have "exclusivePaths (config (handleDropAssign path isFolder name s))"
    using handleDropAssign_cases[of path isFolder name s] assms
    by (auto simp: exclusivePaths_def pathsInvariant_def)
  then show ?thesis by (rule inv_config[OF _ handleDropAssign_presets assms])
qed

lemma inv_addToQueue:
  assumes "pathsInvariant s"
  shows "pathsInvariant (addToQueue fileId logId now s)"
  using assms
  by (simp add: addToQueue_def Let_def addLog_def pathsInvariant_def presetsExclusive_def
      exclusivePaths_def)

lemma find_in_set: "find P xs = Some x \<Longrightarrow> x \<in> set xs"
  by (induction xs) (auto split: if_splits)

lemma inv_applyPreset:
  assumes "pathsInvariant s"
  shows "pathsInvariant (applyPreset presetId s)"
proof (cases "find (\<lambda>item. ps_id item = presetId) (presets s)")
  case None
  then show ?thesis using assms by (simp add: applyPreset_def)
next
  case (Some preset)
  then have "preset \<in> set (presets s)" by (rule find_in_set)
  then have "exclusivePaths (ps_config preset)"
    using assms by (simp add: pathsInvariant_def presetsExclusive_def list_all_iff)
  then show ?thesis
    using Some assms by (simp add: applyPreset_def pathsInvariant_def presetsExclusive_def)
qed

lemma inv_savePreset:
  assumes "pathsInvariant s"
  shows "pathsInvariant (savePreset answer uuid s)"
  using assms
  by (cases answer) (simp_all add: savePreset_def pathsInvariant_def presetsExclusive_def)

lemma inv_handlePresetChange:
  assumes "pathsInvariant s"
  shows "pathsInvariant (handlePresetChange v answer uuid s)"
proof -
  have "pathsInvariant (s\<lparr>selectedPresetId := v\<rparr>)"
    using assms by (simp add: pathsInvariant_def presetsExclusive_def)
  then show ?thesis
    using inv_savePreset[OF assms] inv_applyPreset by (simp add: handlePresetChange_def)
qed

lemma inv_settings:
  assumes "pathsInvariant s"
  shows "pathsInvariant (onSaveToolPaths tp s)" "pathsInvariant (onParallelTasksChange n s)"
    "pathsInvariant (onKeepTempFilesChange b s)" "pathsInvariant (setDvDelayInput v s)"
    "pathsInvariant (setHdr10plusDelayInput v s)" "pathsInvariant (toggleShowDelays s)"
  using assms
  by (simp_all add: pathsInvariant_def presetsExclusive_def exclusivePaths_def
      onSaveToolPaths_def onParallelTasksChange_def onKeepTempFilesChange_def
      setDvDelayInput_def setHdr10plusDelayInput_def toggleShowDelays_def)

lemma inv_queue_ops:
  assumes "pathsInvariant s"
  shows "pathsInvariant (handleReorderQueue a b s)" "pathsInvariant (onToggle i s)"
    "pathsInvariant (onToggleAll s)" "pathsInvariant (handleClear s)"
  using assms
  by (simp_all add: pathsInvariant_def presetsExclusive_def handleReorderQueue_def onToggle_def
      onToggleAll_def handleClear_def Let_def split: option.splits)

lemma inv_start:
  assumes "pathsInvariant s"
  shows "pathsInvariant (fst (handleStart tauri pf logId now s))"
    "pathsInvariant (handleStartRejected logId now msg s)"
    "pathsInvariant (fst (handleStop tauri logId now s))"
  using assms
  by (simp_all add: pathsInvariant_def presetsExclusive_def handleStart_def
      handleStartRejected_def handleStop_def addLog_def Let_def)

lemma inv_listeners:
  assumes "pathsInvariant s"
  shows "pathsInvariant (onProcessingQueue now qpl s)"
    "pathsInvariant (onProcessingFile now fpl s)"
    "pathsInvariant (fst (onProcessingStatus st s))"
  using assms
  by (simp_all add: pathsInvariant_def presetsExclusive_def onProcessingQueue_def
      onProcessingFile_def onProcessingStatus_def Let_def split_beta)

lemma inv_handle:
  assumes "pathsInvariant s" "loadsExclusive e"
  shows "pathsInvariant (handle e s)"
proof (cases e)
  case (PresetsLoaded ps)
  then show ?thesis using assms by (simp add: pathsInvariant_def presetsExclusive_def)
next
  case (SimulationUpdate st lg sp q)
  then show ?thesis using assms by (simp add: pathsInvariant_def presetsExclusive_def)
qed (simp_all add: assms(1) inv_onChange inv_browseFile inv_browseFolder inv_handleDropAssign
    inv_addToQueue inv_handlePresetChange inv_savePreset inv_settings inv_queue_ops inv_start
    inv_listeners)

lemma inv_foldl:
  "pathsInvariant s \<Longrightarrow> list_all loadsExclusive evs
     \<Longrightarrow> pathsInvariant (foldl (\<lambda>s e. handle e s) s evs)"
  by (induction evs arbitrary: s) (simp_all add: inv_handle)

lemma inv_initial: "pathsInvariant initialState"
  by (simp add: pathsInvariant_def presetsExclusive_def exclusivePaths_def initialState_def
      initialConfig_def)

lemma inv_runEvents: "list_all loadsExclusive evs \<Longrightarrow> pathsInvariant (runEvents evs)"
  unfolding runEvents_def by (rule inv_foldl[OF inv_initial])

text \<open>A drop whose name holds \<^verbatim>\<open>hdr10\<close> in any letter case goes to the HDR10+ slot.\<close>

lemma drop_label_hdr10plus:
  "includes_str (toLowerCase ''Movie.HDR10Plus.mkv'') ''hdr10''"
  by code_simp

lemma drop_value:
  "hdr10plusPath (config (handleDropAssign ''Movie.HDR10Plus.mkv'' False None
      (onChangeHdr ''a.mkv'' initialState))) = ''Movie.HDR10Plus.mkv''
   \<and> hdrPath (config (handleDropAssign ''Movie.HDR10Plus.mkv'' False None
      (onChangeHdr ''a.mkv'' initialState))) = []"
  using drop_label_hdr10plus by (simp add: handleDropAssign_def Let_def)

text \<open>
  Claim C3 fails for preset application: a preset is applied by replacing the
  configuration wholesale, and the presets installed from client storage are not checked.
  After the mount effect has installed a stored preset that holds both paths, choosing it
  leaves both paths set.
\<close>

theorem C3_stored_preset_counterexample:
  "hdrPath (config (runEvents [PresetsLoaded [bothPathsPreset], PresetChange ''p1'' None []]))
     = ''a.mkv''
   \<and> hdr10plusPath (config (runEvents [PresetsLoaded [bothPathsPreset], PresetChange ''p1'' None []]))
     = ''b.mkv''"
  by (simp add: runEvents_def handlePresetChange_def applyPreset_def bothPathsPreset_def)

text \<open>
  Claim C3, amended: in every run in which the presets installed from client storage hold
  at most one of the two paths each, the form holds at most one of the HDR path and the
  HDR10+ path after every event (text entry, file and folder dialogs and their manual
  prompts, drops, adding to the queue, saving and applying presets, and all other
  handlers and listeners), and so does every preset, saved ones included. Text entry and
  a browsed path for the HDR input clear the HDR10+ path, and the other way round; a drop
  sets the HDR10+ path and clears the HDR path, or sets the DV path, or sets the HDR path
  and clears the HDR10+ path, or changes nothing.
\<close>

theorem C3_exclusive_paths:
  "(list_all loadsExclusive evs \<longrightarrow>
      exclusivePaths (config (runEvents evs))
      \<and> list_all (\<lambda>p. exclusivePaths (ps_config p)) (presets (runEvents evs)))
   \<and> hdr10plusPath (config (onChangeHdr v s)) = []
   \<and> hdrPath (config (onChangeHdr10plus v s)) = []
   \<and> hdr10plusPath (config (assignBrowsed THdr v kind s)) = []
   \<and> hdrPath (config (assignBrowsed THdr10plus v kind s)) = []
   \<and> (config (handleDropAssign path isFolder name s)
         = (config s)\<lparr>hdr10plusPath := path, hdrPath := []\<rparr>
       \<or> config (handleDropAssign path isFolder name s) = (config s)\<lparr>dvPath := path\<rparr>
       \<or> config (handleDropAssign path isFolder name s)
         = (config s)\<lparr>hdrPath := path, hdr10plusPath := []\<rparr>
       \<or> handleDropAssign path isFolder name s = s)"
proof -
  have a: "list_all loadsExclusive evs \<longrightarrow>
      exclusivePaths (config (runEvents evs))
      \<and> list_all (\<lambda>p. exclusivePaths (ps_config p)) (presets (runEvents evs))"
    using inv_runEvents[of evs] by (simp add: pathsInvariant_def presetsExclusive_def)
  have b: "hdr10plusPath (config (onChangeHdr v s)) = []"
    "hdrPath (config (onChangeHdr10plus v s)) = []"
    "hdr10plusPath (config (assignBrowsed THdr v kind s)) = []"
    "hdrPath (config (assignBrowsed THdr10plus v kind s)) = []"
    by (simp_all add: onChangeHdr_def onChangeHdr10plus_def assignBrowsed_def)
  from a b handleDropAssign_cases[of path isFolder name s] show ?thesis by blast
qed

text \<open>
  C3 at a concrete run: a stored preset with an HDR path is installed, an HDR10+ path is
  typed, the preset is applied, a file is dropped, and the form is saved as a preset.
\<close>

theorem C3_exclusive_paths_witness:
  "list_all loadsExclusive witnessRun
   \<and> exclusivePaths (config (runEvents witnessRun))
   \<and> list_all (\<lambda>p. exclusivePaths (ps_config p)) (presets (runEvents witnessRun))"
proof -
  have h: "list_all loadsExclusive witnessRun"
    by (simp add: witnessRun_def hdrPreset_def exclusivePaths_def initialConfig_def)
  from C3_exclusive_paths[of witnessRun] h show ?thesis by blast
qed

subsection \<open>Default output name\<close>

text \<open>
  The name \<^verbatim>\<open>`${hdrLabel.replace('.mkv', '')}.hybrid.mkv`\<close> is computed in the
  single-mode branch of \<^verbatim>\<open>addToQueue\<close> only. The button that calls
  \<^verbatim>\<open>addToQueue\<close> is rendered in batch mode only, so an entry added through the form is
  named by the output path or, without one, by the default output name of the tool
  settings.
\<close>

lemma addToQueue_clicked_output:
  assumes "addToQueueClickable s"
  shows "map qf_outputFile (queue (addToQueue fileId logId now s))
           = map qf_outputFile (queue s) @ [or_str (outputPath (config s)) (defaultOutput (toolPaths s))]"
  using assms by (simp add: addToQueueClickable_def addToQueue_def Let_def addLog_def)

lemma addToQueue2_clicked_output:
  assumes "addToQueueClickable2 t"
  shows "map qf_outputFile (queue2 (addToQueue2 fileId logId now t))
           = map qf_outputFile (queue2 t)
             @ [or_str (outputPath2 (config2 t)) (tp2_defaultOutput (toolPaths2 t))]"
  using assms by (simp add: addToQueueClickable2_def addToQueue2_def Let_def addLog2_def)

text \<open>The single-mode name removes the first \<^verbatim>\<open>.mkv\<close> of the label.\<close>

lemma defaultOutputName_examples:
  "defaultOutputName ''movie.hdr.mkv'' = ''movie.hdr.hybrid.mkv''
   \<and> defaultOutputName ''show.mkv.remux.mkv'' = ''show.remux.mkv.hybrid.mkv''"
  by code_simp

subsection \<open>Persisted settings\<close>

lemma tryParse_malformed: "parse txt = None \<Longrightarrow> tryParse parse txt = Inl SyntaxError"
  by (simp add: tryParse_def)

lemma tryParse_ok: "parse txt = Some v \<Longrightarrow> tryParse parse txt = Inr v"
  by (simp add: tryParse_def)

lemma loadConfig_malformed:
  "parse txt = None \<Longrightarrow>
   loadConfig parse (Some txt) prev
     = Inr (prev, if txt = [] then [] else [''Failed to load config''])"
  by (simp add: loadConfig_def tryParse_malformed)

lemma loadTools_malformed:
  "parse txt = None \<Longrightarrow>
   loadTools parse (Some txt) prev = (prev, if txt = [] then [] else [''Failed to load tool paths''])"
  by (simp add: loadTools_def tryParse_malformed)

lemma loadPresets_malformed:
  "parse txt = None \<Longrightarrow>
   loadPresets parse (Some txt) prev = (prev, if txt = [] then [] else [''Failed to load presets''])"
  by (simp add: loadPresets_def tryParse_malformed)

lemma initialFromStorage3_malformed:
  "parse txt = None \<Longrightarrow> initialFromStorage3 defaults hasWindow parse (Some txt) = defaults"
  by (simp add: initialFromStorage3_def tryParse_malformed)

lemma loadSettings_malformed:
  assumes "allMalformed parse storage"
  shows "\<exists>lines. loadSettings parse storage st = Inr (st, lines)"
proof -
  from assms obtain c t p where
    s: "storage ''hybrid-dv-hdr-config'' = Some c" "storage ''hybrid-dv-hdr-tools'' = Some t"
       "storage ''hybrid-dv-hdr-presets'' = Some p"
    and m: "parse c = None" "parse t = None" "parse p = None"
    by (auto simp: allMalformed_def split: option.splits)
  show ?thesis
    by (simp add: loadSettings_def s m loadConfig_malformed loadTools_malformed loadPresets_malformed)
qed

lemma loadConfig_object:
  "parse txt = Some (JObj kvs) \<Longrightarrow> txt \<noteq> [] \<Longrightarrow>
   loadConfig parse (Some txt) prev
     = Inr (prev(''parallelTasks'' \<mapsto> nullishJ (map_of (rev kvs) ''parallelTasks'') (JNum 4),
                 ''keepTempFiles'' \<mapsto> nullishJ (map_of (rev kvs) ''keepTempFiles'') (JBool False)),
            [])"
  by (simp add: loadConfig_def tryParse_ok)

lemma loadTools_object:
  "parse txt = Some (JObj kvs) \<Longrightarrow> txt \<noteq> [] \<Longrightarrow>
   loadTools parse (Some txt) prev = (toolPathsObject defaultToolPaths ++ map_of (rev kvs), [])"
  by (simp add: loadTools_def tryParse_ok)

lemma initialFromStorage3_object:
  "parse txt = Some (JObj kvs) \<Longrightarrow> txt \<noteq> [] \<Longrightarrow>
   initialFromStorage3 defaults True parse (Some txt) = defaults ++ map_of (rev kvs)"
  by (simp add: initialFromStorage3_def tryParse_ok)

text \<open>
  Claim C6: whatever \<^verbatim>\<open>JSON.parse\<close> is, a storage entry whose text it rejects makes
  none of the loaders throw. In the revision with the mount effect the configuration, the
  tool paths and the presets each stay what they were, and one line goes to the developer
  console (none for the empty text, which is skipped unparsed); with all three entries
  malformed the state after the effect is the initial one, the hardcoded defaults. In the
  revision with lazy initialisers the configuration and the tool paths are the defaults. For
  a text that parses to an object the result is the defaults with the object's properties
  laid over them (for the configuration of the revision with the mount effect: the
  concurrency limit and the retention flag taken from the object, 4 and false where it has
  none).
\<close>

theorem C6_malformed_storage_defaults:
  "(parse doc = None \<longrightarrow>
      loadConfig parse (Some doc) prevC
        = Inr (prevC, if doc = [] then [] else [''Failed to load config''])
      \<and> loadTools parse (Some doc) prevT
        = (prevT, if doc = [] then [] else [''Failed to load tool paths''])
      \<and> loadPresets parse (Some doc) prevP
        = (prevP, if doc = [] then [] else [''Failed to load presets''])
      \<and> initialConfig3 hasWindow parse (Some doc) = defaultConfigObject3
      \<and> initialToolPaths3 hasWindow parse (Some doc) = defaultToolPathsObject3)
   \<and> (allMalformed parse storage \<longrightarrow>
        (\<exists>lines. loadSettings parse storage initialLoaded = Inr (initialLoaded, lines)))
   \<and> (parse doc = Some (JObj kvs) \<and> doc \<noteq> [] \<longrightarrow>
        loadConfig parse (Some doc) prevC
          = Inr (prevC(''parallelTasks'' \<mapsto> nullishJ (map_of (rev kvs) ''parallelTasks'') (JNum 4),
                       ''keepTempFiles'' \<mapsto> nullishJ (map_of (rev kvs) ''keepTempFiles'') (JBool False)),
                 [])
        \<and> loadTools parse (Some doc) prevT
          = (toolPathsObject defaultToolPaths ++ map_of (rev kvs), [])
        \<and> initialConfig3 True parse (Some doc) = defaultConfigObject3 ++ map_of (rev kvs)
        \<and> initialToolPaths3 True parse (Some doc) = defaultToolPathsObject3 ++ map_of (rev kvs))"
proof (intro conjI impI)
  assume m: "parse doc = None"
  show "loadConfig parse (Some doc) prevC
        = Inr (prevC, if doc = [] then [] else [''Failed to load config''])"
    using m by (simp add: loadConfig_malformed)
  show "loadTools parse (Some doc) prevT
        = (prevT, if doc = [] then [] else [''Failed to load tool paths''])"
    using m by (simp add: loadTools_malformed)
  show "loadPresets parse (Some doc) prevP
        = (prevP, if doc = [] then [] else [''Failed to load presets''])"
    using m by (simp add: loadPresets_malformed)
  show "initialConfig3 hasWindow parse (Some doc) = defaultConfigObject3"
    unfolding initialConfig3_def using m by (simp add: initialFromStorage3_malformed)
  show "initialToolPaths3 hasWindow parse (Some doc) = defaultToolPathsObject3"
    unfolding initialToolPaths3_def using m by (simp add: initialFromStorage3_malformed)
next
  assume "allMalformed parse storage"
  then show "\<exists>lines. loadSettings parse storage initialLoaded = Inr (initialLoaded, lines)"
    by (rule loadSettings_malformed)
next
  assume o: "parse doc = Some (JObj kvs) \<and> doc \<noteq> []"
  show "loadConfig parse (Some doc) prevC
          = Inr (prevC(''parallelTasks'' \<mapsto> nullishJ (map_of (rev kvs) ''parallelTasks'') (JNum 4),
                       ''keepTempFiles'' \<mapsto> nullishJ (map_of (rev kvs) ''keepTempFiles'') (JBool False)),
                 [])"
    using o by (simp add: loadConfig_object)
  show "loadTools parse (Some doc) prevT
          = (toolPathsObject defaultToolPaths ++ map_of (rev kvs), [])"
    using o by (simp add: loadTools_object)
  show "initialConfig3 True parse (Some doc) = defaultConfigObject3 ++ map_of (rev kvs)"
    unfolding initialConfig3_def using o by (simp add: initialFromStorage3_object)
  show "initialToolPaths3 True parse (Some doc) = defaultToolPathsObject3 ++ map_of (rev kvs)"
    unfolding initialToolPaths3_def using o by (simp add: initialFromStorage3_object)
qed

text \<open>
  C6 with the stand-in parser: three malformed texts, and the empty object, which leaves
  the defaults.
\<close>

theorem C6_malformed_storage_defaults_witness:
  "loadConfig witnessParse (Some ''{parallelTasks:'') (configObject initialConfig)
     = Inr (configObject initialConfig, [''Failed to load config''])
   \<and> initialToolPaths3 True witnessParse (Some ''not json'') = defaultToolPathsObject3
   \<and> (\<exists>lines. loadSettings witnessParse brokenStorage initialLoaded = Inr (initialLoaded, lines))
   \<and> initialConfig3 True witnessParse (Some ''{}'') = defaultConfigObject3"
proof -
  have m1: "witnessParse ''{parallelTasks:'' = None" by (simp add: witnessParse_def)
  have m2: "witnessParse ''not json'' = None" by (simp add: witnessParse_def)
  have m3: "allMalformed witnessParse brokenStorage"
    by (simp add: allMalformed_def brokenStorage_def witnessParse_def)
  have m4: "witnessParse ''{}'' = Some (JObj []) \<and> ''{}'' \<noteq> []" by (simp add: witnessParse_def)
  have a: "loadConfig witnessParse (Some ''{parallelTasks:'') (configObject initialConfig)
     = Inr (configObject initialConfig, [''Failed to load config''])"
    using C6_malformed_storage_defaults[where parse = witnessParse and doc = "''{parallelTasks:''"
        and prevC = "configObject initialConfig"] m1 by simp
  have b: "initialToolPaths3 True witnessParse (Some ''not json'') = defaultToolPathsObject3"
    using C6_malformed_storage_defaults[where parse = witnessParse and doc = "''not json''"
        and hasWindow = True] m2 by blast
  have c: "\<exists>lines. loadSettings witnessParse brokenStorage initialLoaded = Inr (initialLoaded, lines)"
    using C6_malformed_storage_defaults[where parse = witnessParse and storage = brokenStorage] m3
    by blast
  have d: "initialConfig3 True witnessParse (Some ''{}'') = defaultConfigObject3"
    using C6_malformed_storage_defaults[where parse = witnessParse and doc = "''{}''"
        and kvs = "[]"] m4 by simp
  from a b c d show ?thesis by (intro conjI)
qed

end
